theory Spec2Isabelle
  imports Complex_Main "HOL-Library.Word" "HOL-Library.AList"
begin

section \<open>Python errors\<close>

text \<open>
  Every exception the modelled code can raise is a value; a fallible operation returns
  \<open>error + 'a\<close> with \<open>Inl\<close> the exception.
\<close>

datatype error = KeyError | TypeError | AttributeError | AssertionError | ValueError | IndexError | NameError

section \<open>\<open>get_times\<close>: days, hours and minutes from index for a table\<close>

text \<open>
  A table is a list of rows. A row carries the entity key \<open>pat_key\<close>, the feature
  column, and the day and time-of-day columns of the table; the arguments \<open>day_col\<close>
  and \<open>time_col\<close> of the Python functions (a column name or \<open>None\<close>) are modelled as
  an optional column selector.
\<close>

record obs_row =
  pat_key :: int
  ftr :: string
  day :: int
  tod :: string

text \<open>
  A cell of an output timing column: \<open>get_times\<close> leaves the columns as 64-bit
  integers (read here as \<open>int\<close>) when there is no day column, and builds them as
  \<open>numpy.uint32\<close> arrays otherwise.
\<close>

datatype cell = I64 int | U32 "32 word"

record times_row =
  t_pat_key :: int
  t_ftr :: string
  dfi :: cell
  hfi :: cell
  mfi :: cell

definition mk_times_row :: "obs_row \<Rightarrow> cell \<Rightarrow> cell \<Rightarrow> cell \<Rightarrow> times_row" where
  "mk_times_row r d h m = \<lparr>t_pat_key = pat_key r, t_ftr = ftr r, dfi = d, hfi = h, mfi = m\<rparr>"

text \<open>
  \<open>tp.time_to_hours\<close> and \<open>tp.time_to_minutes\<close> live in \<open>tools.preprocessing\<close>,
  outside this module: they are parameters, giving the value stored in the
  \<open>uint32\<close> array.

  Line 27 builds \<open>dfi_orig\<close> by a dictionary lookup per row (a missing key raises
  \<open>KeyError\<close>); line 38 adds the day column and converts the sum to \<open>uint32\<close>, which
  keeps the low 32 bits; lines 39-40 multiply inside \<open>uint32\<close>.
\<close>

definition get_times ::
  "(string \<Rightarrow> 32 word) \<Rightarrow> (string \<Rightarrow> 32 word) \<Rightarrow> obs_row list \<Rightarrow> (int \<rightharpoonup> int) \<Rightarrow>
   (obs_row \<Rightarrow> int) option \<Rightarrow> (obs_row \<Rightarrow> string) option \<Rightarrow> error + times_row list" where
  "get_times time_to_hours time_to_minutes df dict day_col time_col =
     (case those (map (\<lambda>r. dict (pat_key r)) df) of
        None \<Rightarrow> Inl KeyError
      | Some dfi_orig \<Rightarrow>
          (case day_col of
             None \<Rightarrow>
               Inr (map2 (\<lambda>r d. mk_times_row r (I64 d) (I64 (d * 24)) (I64 (d * 24 * 60)))
                      df dfi_orig)
           | Some dc \<Rightarrow>
               let dfi0 = map2 (\<lambda>d r. (word_of_int (d + dc r) :: 32 word)) dfi_orig df;
                   hfi0 = map (\<lambda>w. w * 24) dfi0;
                   mfi0 = map (\<lambda>w. w * 60) hfi0;
                   hfi1 = (case time_col of
                             None \<Rightarrow> hfi0
                           | Some tc \<Rightarrow> map2 (+) hfi0 (map (\<lambda>r. time_to_hours (tc r)) df));
                   mfi1 = (case time_col of
                             None \<Rightarrow> mfi0
                           | Some tc \<Rightarrow> map2 (+) mfi0 (map (\<lambda>r. time_to_minutes (tc r)) df))
               in Inr (map2 (\<lambda>r (d, h, m). mk_times_row r (U32 d) (U32 h) (U32 m))
                         df (zip dfi0 (zip hfi1 mfi1)))))"

section \<open>Python values used by the pipeline\<close>

text \<open>
  A Python dictionary is an association list with unique keys in insertion order.
  \<open>dict(zip(ks, vs))\<close> inserts the pairs from left to right: a key seen again keeps
  its position and takes the new value.
\<close>

type_synonym ('k, 'v) dict = "('k \<times> 'v) list"

definition py_dict :: "('k \<times> 'v) list \<Rightarrow> ('k, 'v) dict" where
  "py_dict kvs = foldl (\<lambda>d (k, v). AList.update k v d) [] kvs"

definition dict_get :: "('k, 'v) dict \<Rightarrow> 'k \<Rightarrow> 'v option" where
  "dict_get d k = map_of d k"

text \<open>\<open>str(i)\<close> for a non-negative integer: its decimal digits.\<close>

definition digit_char :: "nat \<Rightarrow> char" where
  "digit_char d = ''0123456789'' ! d"

fun str_nat :: "nat \<Rightarrow> string" where
  "str_nat n = (if n < 10 then [digit_char n] else str_nat (n div 10) @ [digit_char (n mod 10)])"

declare str_nat.simps [simp del]

text \<open>\<open>"{:02d}".format(n)\<close>: the decimal digits, padded with zeros on the left to width 2.\<close>

definition fmt_02d :: "nat \<Rightarrow> string" where
  "fmt_02d n = (let s = str_nat n in replicate (2 - length s) CHR ''0'' @ s)"

text \<open>
  A float column cell is \<open>real option\<close>: \<open>None\<close> is NaN (a missing value after a
  left join or a dictionary map). Arithmetic with NaN gives NaN.
\<close>

definition nan_add :: "real option \<Rightarrow> real option \<Rightarrow> real option" where
  "nan_add a b = (case (a, b) of (Some x, Some y) \<Rightarrow> Some (x + y) | _ \<Rightarrow> None)"

text \<open>
  \<open>left.join(right, how="left", on="pat_key")\<close>: every left row is kept, once per right
  row with its key, and once with a missing value when the right table has none.
\<close>

definition left_join :: "('a \<Rightarrow> int) \<Rightarrow> 'a list \<Rightarrow> (int \<times> 'v) list \<Rightarrow> ('a \<times> 'v option) list" where
  "left_join key xs tab =
     concat (map (\<lambda>x. case filter (\<lambda>kv. fst kv = key x) tab of
                          [] \<Rightarrow> [(x, None)]
                        | ms \<Rightarrow> map (\<lambda>kv. (x, Some (snd kv))) ms) xs)"

section \<open>The class \<open>parquets_dask\<close>: temporal alignment\<close>

text \<open>
  \<open>dd.read_parquet\<close> gives a lazy dask dataframe; \<open>client.compute\<close> gives a
  \<open>distributed.Future\<close>. A dataframe can be subscripted (\<open>x[col]\<close>) and has no
  method \<open>result\<close>; a future has \<open>result()\<close> and cannot be subscripted.
\<close>

datatype 'a handle = Lazy 'a | Future 'a

definition subscript :: "'a handle \<Rightarrow> error + 'a" where
  "subscript h = (case h of Lazy t \<Rightarrow> Inr t | Future t \<Rightarrow> Inl TypeError)"

definition result :: "'a handle \<Rightarrow> error + 'a" where
  "result h = (case h of Future t \<Rightarrow> Inr t | Lazy t \<Rightarrow> Inl AttributeError)"

record id_row =
  id_pat_key :: int
  days_from_index :: int
  los :: int

text \<open>The visit timing table: one value column, named after the aggregation level.\<close>

record timing_table =
  tt_col :: string
  tt_rows :: "(int \<times> int) list"

record pipeline =
  agg_level :: string
  visit_timing :: "timing_table handle"
  id_table :: "id_row list handle"

text \<open>Lines 401-406: the multipliers per aggregation level.\<close>

definition agg_lvls :: "string list" where
  "agg_lvls = [''dfi'', ''hfi'', ''mfi'']"

definition from_days :: "(string, int) dict" where
  "from_days = py_dict (zip agg_lvls [1, 24, 1440])"

definition from_seconds :: "(string, int) dict" where
  "from_seconds = py_dict (zip agg_lvls [60 * 60 * 24, 60 * 60, 60])"

text \<open>Lines 416-423: the H:M:S lookup table.\<close>

definition hms :: "nat \<Rightarrow> nat \<Rightarrow> nat \<Rightarrow> string" where
  "hms a b c = fmt_02d a @ '':'' @ fmt_02d b @ '':'' @ fmt_02d c"

definition time_stamps :: "string list" where
  "time_stamps = concat (map (\<lambda>a. concat (map (\<lambda>b. map (\<lambda>c. hms a b c) [0..<60]) [0..<60])) [0..<24])"

text \<open>The time stamp at position \<open>i\<close> of \<open>time_stamps\<close>, in closed form.\<close>

definition hms_at :: "nat \<Rightarrow> string" where
  "hms_at i = hms (i div 3600) (i mod 3600 div 60) (i mod 3600 mod 60)"

definition time_dict :: "(string, nat) dict" where
  "time_dict = py_dict (zip time_stamps [0..<length time_stamps])"

text \<open>
  \<open>get_visit_timing\<close> (lines 539-547) reads \<open>self.agg_level\<close> and nothing else of the
  object; the level is its first argument here. The table is subscripted first, the
  multiplier looked up second.
\<close>

definition get_visit_timing :: "string \<Rightarrow> id_row list handle \<Rightarrow> error + timing_table" where
  "get_visit_timing lvl idt =
     (case subscript idt of
        Inl e \<Rightarrow> Inl e
      | Inr t \<Rightarrow>
          (case dict_get from_days lvl of
             None \<Rightarrow> Inl KeyError
           | Some k \<Rightarrow> Inr \<lparr>tt_col = lvl, tt_rows = map (\<lambda>r. (id_pat_key r, days_from_index r * k)) t\<rparr>))"

text \<open>
  \<open>__init__\<close> (lines 408-414): the visit timing is computed from the lazy id table and
  kept as a future; then \<open>self.id\<close> itself is replaced by a future.
\<close>

definition init :: "id_row list \<Rightarrow> string \<Rightarrow> error + pipeline" where
  "init idt agg_lvl =
     (case get_visit_timing agg_lvl (Lazy idt) of
        Inl e \<Rightarrow> Inl e
      | Inr vt \<Rightarrow> Inr \<lparr>agg_level = agg_lvl, visit_timing = Future vt, id_table = Future idt\<rparr>)"

text \<open>The table \<open>get_timing\<close> returns: the name of its value column and its rows.\<close>

record timing_out =
  out_col :: string
  out_rows :: "(obs_row \<times> real option) list"

text \<open>Lines 583-587: anchoring to the end of the visit.\<close>

definition add_los ::
  "pipeline \<Rightarrow> string \<Rightarrow> (obs_row \<times> real option) list \<Rightarrow> error + (obs_row \<times> real option) list" where
  "add_los self col out =
     (case result (id_table self) of
        Inl e \<Rightarrow> Inl e
      | Inr idt \<Rightarrow>
          let joined = left_join (\<lambda>rv. pat_key (fst rv)) out (map (\<lambda>r. (id_pat_key r, los r)) idt)
          in if agg_level self \<noteq> col then Inl KeyError
             else (case dict_get from_days (agg_level self) of
                     None \<Rightarrow> Inl KeyError
                   | Some k \<Rightarrow>
                       Inr (map (\<lambda>(rv, l). (fst rv,
                              nan_add (snd rv) (map_option (\<lambda>l. real_of_int (l * k)) l))) joined)))"

text \<open>Lines 594-610: the day column and the time-of-day column.\<close>

definition add_day ::
  "pipeline \<Rightarrow> string \<Rightarrow> (obs_row \<Rightarrow> int) \<Rightarrow> (obs_row \<times> real option) list \<Rightarrow>
   error + (obs_row \<times> real option) list" where
  "add_day self col dc out =
     (if agg_level self \<noteq> col then Inl KeyError
      else (case dict_get from_days (agg_level self) of
              None \<Rightarrow> Inl KeyError
            | Some k \<Rightarrow> Inr (map (\<lambda>(r, v). (r, nan_add v (Some (real_of_int (dc r * k))))) out)))"

definition add_time ::
  "pipeline \<Rightarrow> string \<Rightarrow> (obs_row \<Rightarrow> string) \<Rightarrow> (obs_row \<times> real option) list \<Rightarrow>
   error + (obs_row \<times> real option) list" where
  "add_time self col tc out =
     (if agg_level self \<noteq> col then Inl KeyError
      else (case dict_get from_seconds (agg_level self) of
              None \<Rightarrow> Inl KeyError
            | Some sk \<Rightarrow>
                Inr (map (\<lambda>(r, v). (r, nan_add v
                       (map_option (\<lambda>t. real t / real_of_int sk) (dict_get time_dict (tc r))))) out)))"

definition get_timing ::
  "pipeline \<Rightarrow> obs_row list \<Rightarrow> (obs_row \<Rightarrow> int) option \<Rightarrow> bool \<Rightarrow> (obs_row \<Rightarrow> string) option \<Rightarrow>
   error + timing_out" where
  "get_timing self df day_col end_of_visit time_col =
     (case result (visit_timing self) of
        Inl e \<Rightarrow> Inl e
      | Inr vt \<Rightarrow>
          let col = tt_col vt;
              out0 = map (\<lambda>(r, v). (r, map_option real_of_int v)) (left_join pat_key df (tt_rows vt))
          in (case (if end_of_visit then add_los self col out0 else Inr out0) of
                Inl e \<Rightarrow> Inl e
              | Inr out1 \<Rightarrow>
                  (case day_col of
                     None \<Rightarrow> Inr \<lparr>out_col = col, out_rows = out1\<rparr>
                   | Some dc \<Rightarrow>
                       (case add_day self col dc out1 of
                          Inl e \<Rightarrow> Inl e
                        | Inr out2 \<Rightarrow>
                            (case time_col of
                               None \<Rightarrow> Inr \<lparr>out_col = col, out_rows = out2\<rparr>
                             | Some tc \<Rightarrow>
                                 (case add_time self col tc out2 of
                                    Inl e \<Rightarrow> Inl e
                                  | Inr out3 \<Rightarrow> Inr \<lparr>out_col = col, out_rows = out3\<rparr>))))))"

text \<open>
  \<open>reset_agg_level\<close> (lines 614-625): the level is stored first; the visit timing is
  then recomputed from \<open>self.id\<close> and stored as it comes back from
  \<open>get_visit_timing\<close>, with no \<open>client.compute\<close>. An exception leaves the object
  with the assignments made so far.
\<close>

definition reset_agg_level :: "pipeline \<Rightarrow> string \<Rightarrow> pipeline \<times> (error + unit)" where
  "reset_agg_level self new_level =
     (let self1 = self\<lparr>agg_level := new_level\<rparr>
      in case get_visit_timing (agg_level self1) (id_table self1) of
           Inl e \<Rightarrow> (self1, Inl e)
         | Inr vt \<Rightarrow> (self1\<lparr>visit_timing := Lazy vt\<rparr>, Inr ()))"

section \<open>The class \<open>parquets_dask\<close>: feature codec\<close>

text \<open>
  A row of a source table: the entity key, the text column (line 503 casts it to
  \<open>str\<close>) and the numeric column.
\<close>

record src_row =
  s_pat_key :: int
  s_text :: string
  s_num :: real

text \<open>
  \<open>pandas.unique\<close>: the distinct values in order of first appearance.
\<close>

fun unique_acc :: "'a list \<Rightarrow> 'a list \<Rightarrow> 'a list" where
  "unique_acc seen [] = []"
| "unique_acc seen (x # xs) =
     (if x \<in> set seen then unique_acc seen xs else x # unique_acc (x # seen) xs)"

definition unique :: "'a list \<Rightarrow> 'a list" where
  "unique xs = unique_acc [] xs"

text \<open>
  \<open>df_to_features\<close> (lines 491-537). The grouped quantile cut (\<open>pandas.qcut\<close> under
  \<open>groupby(text_col)[num_col].transform\<close>) is a library call: \<open>qcut buckets col i\<close>
  stands for the string \<open>df["q"].astype(str)\<close> holds at row \<open>i\<close>, given the bucket
  count and the text and numeric columns. With a numeric column the text becomes
  \<open>text + " q" + q\<close>; without one it is left as it is. The result keeps the entity key
  and the text of each row, in row order.
\<close>

definition df_to_features ::
  "(nat \<Rightarrow> (string \<times> real) list \<Rightarrow> nat \<Rightarrow> string) \<Rightarrow> src_row list \<Rightarrow>
   (src_row \<Rightarrow> real) option \<Rightarrow> nat \<Rightarrow> (int \<times> string) list" where
  "df_to_features qcut df num_col buckets =
     (case num_col of
        None \<Rightarrow> map (\<lambda>r. (s_pat_key r, s_text r)) df
      | Some nc \<Rightarrow>
          map (\<lambda>i. (s_pat_key (df ! i),
                     s_text (df ! i) @ '' q'' @ qcut buckets (map (\<lambda>r. (s_text r, nc r)) df) i))
            [0..<length df])"

text \<open>\<open>col_to_features\<close> (lines 482-489).\<close>

definition col_to_features :: "string list \<Rightarrow> string \<Rightarrow> (string, string) dict" where
  "col_to_features text_col feature_prefix =
     (let unique_codes = unique text_col;
          n_codes = length unique_codes;
          ftr_codes = map (\<lambda>i. feature_prefix @ str_nat i) [0..<n_codes]
      in py_dict (zip ftr_codes unique_codes))"

text \<open>
  \<open>condense_features\<close> (lines 475-480): the dictionary is inverted and mapped over the
  text column; a text with no entry would become a missing value.
\<close>

definition condense_features ::
  "(int \<times> string) list \<Rightarrow> (string, string) dict \<Rightarrow> (int \<times> string option) list" where
  "condense_features df code_dict =
     (let inv = py_dict (map (\<lambda>(v, k). (k, v)) code_dict)
      in map (\<lambda>(p, t). (p, dict_get inv t)) df)"

section \<open>Bootstrap confidence intervals: numerical helpers\<close>

text \<open>
  Floating-point numbers are read as reals: rounding is not modelled. A metric value is
  \<open>real option\<close>, \<open>None\<close> being NaN. Where the code can produce an infinity (a division
  by zero, \<open>norm.ppf\<close> at 0 or 1) the value is an \<open>ext\<close>; the sign of a zero is not
  followed, a zero counting as \<open>+0\<close>.
\<close>

datatype ext = Finite real | PInf | MInf | NaN

definition ext_neg :: "ext \<Rightarrow> ext" where
  "ext_neg x = (case x of Finite r \<Rightarrow> Finite (- r) | PInf \<Rightarrow> MInf | MInf \<Rightarrow> PInf | NaN \<Rightarrow> NaN)"

definition ext_add :: "ext \<Rightarrow> ext \<Rightarrow> ext" where
  "ext_add x y =
     (case (x, y) of
        (NaN, _) \<Rightarrow> NaN
      | (_, NaN) \<Rightarrow> NaN
      | (Finite a, Finite b) \<Rightarrow> Finite (a + b)
      | (PInf, MInf) \<Rightarrow> NaN
      | (MInf, PInf) \<Rightarrow> NaN
      | (PInf, _) \<Rightarrow> PInf
      | (_, PInf) \<Rightarrow> PInf
      | (MInf, _) \<Rightarrow> MInf
      | (_, MInf) \<Rightarrow> MInf)"

text \<open>The sign of a non-NaN value: \<open>-1\<close>, \<open>0\<close> or \<open>1\<close>.\<close>

definition ext_sgn :: "ext \<Rightarrow> real" where
  "ext_sgn x = (case x of Finite r \<Rightarrow> sgn r | PInf \<Rightarrow> 1 | MInf \<Rightarrow> - 1 | NaN \<Rightarrow> 0)"

definition ext_inf :: "real \<Rightarrow> ext" where
  "ext_inf s = (if s = 0 then NaN else if 0 < s then PInf else MInf)"

definition ext_mul :: "ext \<Rightarrow> ext \<Rightarrow> ext" where
  "ext_mul x y =
     (case (x, y) of
        (NaN, _) \<Rightarrow> NaN
      | (_, NaN) \<Rightarrow> NaN
      | (Finite a, Finite b) \<Rightarrow> Finite (a * b)
      | _ \<Rightarrow> ext_inf (ext_sgn x * ext_sgn y))"

definition ext_div :: "ext \<Rightarrow> ext \<Rightarrow> ext" where
  "ext_div x y =
     (case (x, y) of
        (NaN, _) \<Rightarrow> NaN
      | (_, NaN) \<Rightarrow> NaN
      | (Finite a, Finite b) \<Rightarrow> (if b = 0 then ext_inf (sgn a) else Finite (a / b))
      | (Finite a, _) \<Rightarrow> Finite 0
      | (_, Finite b) \<Rightarrow> ext_inf (ext_sgn x * (if b < 0 then - 1 else 1))
      | _ \<Rightarrow> NaN)"

text \<open>
  \<open>scipy.stats.norm\<close> is a library: the quantile function and the distribution
  function on finite arguments are parameters \<open>ppf\<close> and \<open>cdf\<close>. What the library
  fixes at the ends is written out: \<open>norm.ppf\<close> is \<open>-inf\<close> at 0, \<open>inf\<close> at 1 and NaN
  outside \<open>[0, 1]\<close>; \<open>norm.cdf\<close> is 0 at \<open>-inf\<close> and 1 at \<open>inf\<close>.
\<close>

definition norm_ppf :: "(real \<Rightarrow> real) \<Rightarrow> real \<Rightarrow> ext" where
  "norm_ppf ppf p =
     (if p < 0 \<or> 1 < p then NaN else if p = 0 then MInf else if p = 1 then PInf else Finite (ppf p))"

definition norm_cdf :: "(real \<Rightarrow> real) \<Rightarrow> ext \<Rightarrow> ext" where
  "norm_cdf cdf x = (case x of Finite r \<Rightarrow> Finite (cdf r) | PInf \<Rightarrow> Finite 1 | MInf \<Rightarrow> Finite 0 | NaN \<Rightarrow> NaN)"

subsection \<open>\<open>numpy.nanpercentile\<close>\<close>

text \<open>
  The interpolation policies of \<open>numpy.percentile\<close>. For a sorted array \<open>ap\<close> of
  \<open>Nx\<close> values and a rank \<open>q\<close> the fractional index is \<open>q / 100 * (Nx - 1)\<close>;
  \<open>lower\<close>, \<open>higher\<close> and \<open>nearest\<close> turn it into an integer index (\<open>numpy.around\<close>
  rounds a half to the even neighbour), \<open>midpoint\<close> into the mean of floor and
  ceiling, and a fractional index is interpolated between its two neighbours.
\<close>

datatype interpolation = Linear | Lower | Higher | Midpoint | Nearest

definition around :: "real \<Rightarrow> int" where
  "around x =
     (let f = \<lfloor>x\<rfloor>; d = x - of_int f
      in if d < 1 / 2 then f else if 1 / 2 < d then f + 1 else if even f then f else f + 1)"

definition lerp_at :: "real list \<Rightarrow> real \<Rightarrow> real" where
  "lerp_at ap idx =
     (let below = \<lfloor>idx\<rfloor>;
          above = (if int (length ap) - 1 < below + 1 then int (length ap) - 1 else below + 1);
          w = idx - of_int below
      in ap ! nat below * (1 - w) + ap ! nat above * w)"

definition percentile_sorted :: "interpolation \<Rightarrow> real list \<Rightarrow> real \<Rightarrow> real" where
  "percentile_sorted interp ap q =
     (let indices = q / 100 * (real (length ap) - 1)
      in case interp of
           Lower \<Rightarrow> ap ! nat \<lfloor>indices\<rfloor>
         | Higher \<Rightarrow> ap ! nat \<lceil>indices\<rceil>
         | Nearest \<Rightarrow> ap ! nat (around indices)
         | Midpoint \<Rightarrow> lerp_at ap ((of_int \<lfloor>indices\<rfloor> + of_int \<lceil>indices\<rceil>) / 2)
         | Linear \<Rightarrow> lerp_at ap indices)"

text \<open>
  One column at one rank: NaNs are dropped, the rest is sorted; a column with nothing
  left gives NaN. The ranks are checked by the caller below, as numpy checks them before
  it looks at the data.
\<close>

definition nan_drop :: "real option list \<Rightarrow> real list" where
  "nan_drop col = concat (map (\<lambda>x. case x of None \<Rightarrow> [] | Some r \<Rightarrow> [r]) col)"

definition column_percentile :: "interpolation \<Rightarrow> real option list \<Rightarrow> real \<Rightarrow> real option" where
  "column_percentile interp col q =
     (let ap = sort (nan_drop col)
      in if ap = [] then None else Some (percentile_sorted interp ap q))"

definition valid_rank :: "ext \<Rightarrow> bool" where
  "valid_rank q = (case q of Finite r \<Rightarrow> 0 \<le> r \<and> r \<le> 100 | _ \<Rightarrow> False)"

definition rank_value :: "ext \<Rightarrow> real" where
  "rank_value q = (case q of Finite r \<Rightarrow> r | _ \<Rightarrow> 0)"

text \<open>
  \<open>np.nanpercentile(col, q=(lower, upper), interpolation=..., axis=0)\<close> on one column:
  \<open>ValueError\<close> unless both ranks are in \<open>[0, 100]\<close> (a NaN rank is not).
\<close>

definition nanpercentile ::
  "interpolation \<Rightarrow> real option list \<Rightarrow> ext \<times> ext \<Rightarrow> error + (real option \<times> real option)" where
  "nanpercentile interp col q =
     (if valid_rank (fst q) \<and> valid_rank (snd q)
      then Inr (column_percentile interp col (rank_value (fst q)),
                column_percentile interp col (rank_value (snd q)))
      else Inl ValueError)"

text \<open>
  The same call on a matrix, column by column (\<open>axis=0\<close>): the ranks are checked once,
  whatever the number of columns.
\<close>

definition nanpercentile_cols ::
  "interpolation \<Rightarrow> real option list list \<Rightarrow> ext \<times> ext \<Rightarrow> error + (real option \<times> real option) list" where
  "nanpercentile_cols interp cols q =
     (if valid_rank (fst q) \<and> valid_rank (snd q)
      then Inr (map (\<lambda>col. (column_percentile interp col (rank_value (fst q)),
                            column_percentile interp col (rank_value (snd q)))) cols)
      else Inl ValueError)"

section \<open>Bootstrap confidence intervals: \<open>boot_cis\<close> and \<open>boot_roc\<close>\<close>

subsection \<open>The global name \<open>tools\<close>\<close>

text \<open>
  \<open>jackknife_metrics\<close>, \<open>boot_cis\<close> and \<open>boot_roc\<close> call \<open>tools.clf_metrics\<close> and
  \<open>tools.boot_sample\<close> (lines 68, 104, 123, 134 and 237), and so read the global name
  \<open>tools\<close> of this module. The only import that mentions the package is
  \<open>import tools.preprocessing as tp\<close> (line 21), which binds \<open>tp\<close> and nothing else,
  and no other statement of the module assigns \<open>tools\<close>: in the module as it stands
  the name is unbound, and reading it raises \<open>NameError\<close>.

  A function that reads the name takes its binding as an argument: \<open>None\<close> is the
  module as it stands, \<open>Some m\<close> a namespace in which the name has been bound to a module
  \<open>m\<close> with the two functions. The metric function is called in three shapes: for the
  point estimate with \<open>average_by\<close>, \<open>weighted\<close> and \<open>mcnemar\<close>, on a resample with
  \<open>average_by\<close> and \<open>weighted\<close>, and on a resample with the targets and guesses only;
  it returns one row of metric values, in a fixed order of columns.
\<close>

datatype 'k clf_call = PointCall "'k list option" bool bool | BootCall "'k list option" bool | PlainCall

record ('t, 'g, 's, 'k) tools_module =
  clf_metrics :: "'t list \<Rightarrow> 'g list \<Rightarrow> 'k clf_call \<Rightarrow> real option list"
  boot_sample :: "'t list \<Rightarrow> 's list option \<Rightarrow> int \<Rightarrow> nat list"

definition module_tools :: "('t, 'g, 's, 'k) tools_module option" where
  "module_tools = None"

subsection \<open>Seeds\<close>

text \<open>
  numpy and scipy are imported by the module (lines 6 and 17). What the model needs of
  them is a parameter: numpy's global random generator (\<open>seed\<close> sets its state from an
  integer or an array, a draw returns a number and the next state), and the normal
  quantile and distribution functions on finite arguments.
\<close>

datatype seed_arg = SeedInt int | SeedArray "int list"

record 'r env =
  rng_seed :: "seed_arg \<Rightarrow> 'r"
  rng_draw :: "int \<Rightarrow> int \<Rightarrow> 'r \<Rightarrow> int \<times> 'r"
  ppf_of :: "real \<Rightarrow> real"
  cdf_of :: "real \<Rightarrow> real"

text \<open>\<open>np.random.randint(low, high, size)\<close>: \<open>size\<close> draws from the global generator.\<close>

fun randint :: "(int \<Rightarrow> int \<Rightarrow> 'r \<Rightarrow> int \<times> 'r) \<Rightarrow> int \<Rightarrow> int \<Rightarrow> nat \<Rightarrow> 'r \<Rightarrow> int list \<times> 'r" where
  "randint draw low high 0 g = ([], g)"
| "randint draw low high (Suc n) g =
     (let (x, g1) = draw low high g;
          (xs, g2) = randint draw low high n g1
      in (x # xs, g2))"

text \<open>
  \<open>np.random.seed\<close> accepts an integer in \<open>[0, 2 ^ 32)\<close> or a non-empty array of
  such integers, and raises \<open>ValueError\<close> for any other.
\<close>

definition seed_ok :: "seed_arg \<Rightarrow> bool" where
  "seed_ok s =
     (case s of
        SeedInt i \<Rightarrow> 0 \<le> i \<and> i < 2 ^ 32
      | SeedArray xs \<Rightarrow> xs \<noteq> [] \<and> list_all (\<lambda>i. 0 \<le> i \<and> i < 2 ^ 32) xs)"

definition np_random_seed :: "'r env \<Rightarrow> seed_arg \<Rightarrow> error + 'r" where
  "np_random_seed e s = (if seed_ok s then Inr (rng_seed e s) else Inl ValueError)"

text \<open>
  Lines 114-118 of \<open>boot_cis\<close>: without a seed one is drawn from the generator as it
  stands; the generator is then seeded and the per-iteration seeds are drawn. The
  result is the seeds and the generator's state afterwards.
\<close>

definition derive_seeds :: "'r env \<Rightarrow> int option \<Rightarrow> nat \<Rightarrow> 'r \<Rightarrow> error + (int list \<times> 'r)" where
  "derive_seeds e seed n g =
     (let seed1 = (case seed of
                     None \<Rightarrow> SeedArray (fst (randint (rng_draw e) 0 1000000 1 g))
                   | Some s \<Rightarrow> SeedInt s)
      in case np_random_seed e seed1 of
           Inl err \<Rightarrow> Inl err
         | Inr st \<Rightarrow> Inr (randint (rng_draw e) 0 1000000 n st))"

text \<open>Lines 231-232 of \<open>boot_roc\<close>; the seed is an integer.\<close>

definition roc_seeds :: "'r env \<Rightarrow> int \<Rightarrow> nat \<Rightarrow> error + int list" where
  "roc_seeds e seed n =
     (case np_random_seed e (SeedInt seed) of
        Inl err \<Rightarrow> Inl err
      | Inr st \<Rightarrow> Inr (fst (randint (rng_draw e) 1 10000000 n st)))"

text \<open>Lines 122-123 and 236-237: the inputs of the sampling primitive, and its results.\<close>

definition boot_input :: "'t list \<Rightarrow> 's list option \<Rightarrow> int list \<Rightarrow> ('t list \<times> 's list option \<times> int) list" where
  "boot_input targets sample_by seeds = map (\<lambda>seed. (targets, sample_by, seed)) seeds"

definition boots_of ::
  "('t, 'g, 's, 'k) tools_module \<Rightarrow> ('t list \<times> 's list option \<times> int) list \<Rightarrow> nat list list" where
  "boots_of m inputs = map (\<lambda>(t, s, seed). boot_sample m t s seed) inputs"

text \<open>\<open>xs[idx]\<close> with an index array: \<open>IndexError\<close> when an index is out of bounds.\<close>

definition np_take :: "'a list \<Rightarrow> nat list \<Rightarrow> error + 'a list" where
  "np_take xs idx = (if list_all (\<lambda>i. i < length xs) idx then Inr (map (\<lambda>i. xs ! i) idx) else Inl IndexError)"

text \<open>The first error of a list of results, or all the values.\<close>

fun collect :: "(error + 'a) list \<Rightarrow> error + 'a list" where
  "collect [] = Inr []"
| "collect (Inl e # rs) = Inl e"
| "collect (Inr x # rs) = (case collect rs of Inl e \<Rightarrow> Inl e | Inr xs \<Rightarrow> Inr (x # xs))"

text \<open>
  \<open>boot_roc\<close> (lines 229-243); \<open>roc_curve\<close> is scikit-learn's, a parameter. The seeds
  are drawn and the inputs built before line 237 reads \<open>tools\<close>.
\<close>

definition boot_roc ::
  "'r env \<Rightarrow> ('t, 'g, 's, 'k) tools_module option \<Rightarrow> ('t list \<Rightarrow> 'g list \<Rightarrow> 'c) \<Rightarrow> 't list \<Rightarrow> 'g list \<Rightarrow>
   's list option \<Rightarrow> nat \<Rightarrow> int \<Rightarrow> error + 'c list" where
  "boot_roc e tools roc_curve targets scores sample_by n seed =
     (case roc_seeds e seed n of
        Inl err \<Rightarrow> Inl err
      | Inr seeds \<Rightarrow>
          (let inputs = boot_input targets sample_by seeds
           in case tools of
                None \<Rightarrow> Inl NameError
              | Some m \<Rightarrow>
                  (case collect (map (\<lambda>boot.
                           case np_take targets boot of
                             Inl err \<Rightarrow> Inl err
                           | Inr t \<Rightarrow> (case np_take scores boot of
                                        Inl err \<Rightarrow> Inl err
                                      | Inr s \<Rightarrow> Inr (t, s))) (boots_of m inputs)) of
                     Inl err \<Rightarrow> Inl err
                   | Inr roc_input \<Rightarrow> Inr (map (\<lambda>(t, s). roc_curve t s) roc_input))))"

subsection \<open>Score matrices\<close>

text \<open>
  A score matrix is the list of its rows, one per resample; \<open>pd.concat\<close> of no rows
  raises \<open>ValueError\<close>. Column \<open>j\<close> holds NaN where a row has no such value.
\<close>

definition column :: "nat \<Rightarrow> real option list list \<Rightarrow> real option list" where
  "column j rows = map (\<lambda>r. if j < length r then r ! j else None) rows"

definition pd_concat :: "real option list list \<Rightarrow> error + real option list list" where
  "pd_concat rows = (if rows = [] then Inl ValueError else Inr rows)"

definition nansum :: "real option list \<Rightarrow> real" where
  "nansum col = sum_list (nan_drop col)"

definition nanmean :: "real option list \<Rightarrow> real option" where
  "nanmean col = (if nan_drop col = [] then None else Some (nansum col / real (length (nan_drop col))))"

definition nan_sub :: "real option \<Rightarrow> real option \<Rightarrow> real option" where
  "nan_sub a b = (case (a, b) of (Some x, Some y) \<Rightarrow> Some (x - y) | _ \<Rightarrow> None)"

text \<open>
  \<open>jackknife_metrics\<close> (lines 60-75): the metric on every leave-one-out replicate, and
  the column means. The replicates are built (line 66) before line 68 reads \<open>tools\<close>.
  \<open>m\<close> is the number of metric columns.
\<close>

definition jackknife_metrics ::
  "('t, 'g, 's, 'k) tools_module option \<Rightarrow> nat \<Rightarrow> 't list \<Rightarrow> 'g list \<Rightarrow>
   error + (real option list list \<times> real option list)" where
  "jackknife_metrics tools m targets guesses =
     (let rows = [0..<length targets];
          j_rows = map (\<lambda>row. filter (\<lambda>i. i \<noteq> row) rows) rows
      in case collect (map (\<lambda>idx.
                case np_take targets idx of
                  Inl err \<Rightarrow> Inl err
                | Inr t \<Rightarrow> (case np_take guesses idx of
                             Inl err \<Rightarrow> Inl err
                           | Inr g \<Rightarrow> Inr (t, g))) j_rows) of
           Inl err \<Rightarrow> Inl err
         | Inr inputs \<Rightarrow>
             (case tools of
                None \<Rightarrow> Inl NameError
              | Some tm \<Rightarrow>
                  (case pd_concat (map (\<lambda>(t, g). clf_metrics tm t g (BootCall None True)) inputs) of
                     Inl err \<Rightarrow> Inl err
                   | Inr scores \<Rightarrow> Inr (scores, map (\<lambda>j. nanmean (column j scores)) [0..<m]))))"

subsection \<open>The three interval methods\<close>

text \<open>
  Lines 149-155: method \<open>pct\<close>, the percentiles of every column of the score matrix
  at the ranks \<open>lower\<close> and \<open>upper\<close>. \<open>m\<close> is the number of metrics (of columns).
\<close>

definition method_pct ::
  "interpolation \<Rightarrow> real option list list \<Rightarrow> nat \<Rightarrow> real \<Rightarrow> real \<Rightarrow>
   error + (real option \<times> real option) list" where
  "method_pct interp scores m lower upper =
     nanpercentile_cols interp (map (\<lambda>j. column j scores) [0..<m]) (Finite lower, Finite upper)"

text \<open>Lines 159-168: method \<open>diff\<close>.\<close>

definition method_diff ::
  "interpolation \<Rightarrow> real option list \<Rightarrow> real option list list \<Rightarrow> real \<Rightarrow> real \<Rightarrow>
   error + (real option \<times> real option) list" where
  "method_diff interp stat_vals scores lower upper =
     (case nanpercentile_cols interp
             (map (\<lambda>j. map (\<lambda>s. nan_sub (stat_vals ! j) s) (column j scores)) [0..<length stat_vals])
             (Finite lower, Finite upper) of
        Inl err \<Rightarrow> Inl err
      | Inr percents \<Rightarrow>
          Inr (map (\<lambda>j. (nan_add (stat_vals ! j) (fst (percents ! j)),
                          nan_add (stat_vals ! j) (snd (percents ! j)))) [0..<length stat_vals]))"

text \<open>
  Lines 173-179: the bias-correction factor of one metric, from the point estimate and
  the column of bootstrap scores (a comparison with NaN is false); an infinite value is
  replaced by 0.
\<close>

definition p_less :: "nat \<Rightarrow> real option \<Rightarrow> real option list \<Rightarrow> real" where
  "p_less n stat_val col =
     real (length (filter (\<lambda>s. case (s, stat_val) of (Some x, Some v) \<Rightarrow> x < v | _ \<Rightarrow> False) col)) / real n"

definition fix_inf :: "ext \<Rightarrow> ext" where
  "fix_inf z = (case z of PInf \<Rightarrow> Finite 0 | MInf \<Rightarrow> Finite 0 | _ \<Rightarrow> z)"

definition bias_correction :: "(real \<Rightarrow> real) \<Rightarrow> nat \<Rightarrow> real option \<Rightarrow> real option list \<Rightarrow> ext" where
  "bias_correction ppf n stat_val col = fix_inf (norm_ppf ppf (p_less n stat_val col))"

text \<open>
  Lines 182-193: the acceleration factor of one metric, from the column of jackknife
  scores and its mean. The sums skip NaN, as pandas sums do.
\<close>

definition jack_diffs :: "real option \<Rightarrow> real option list \<Rightarrow> real option list" where
  "jack_diffs mean col = map (\<lambda>s. nan_sub mean s) col"

definition acc_numer :: "real option list \<Rightarrow> real" where
  "acc_numer devs = nansum (map (map_option (\<lambda>d. d ^ 3)) devs)"

definition acc_denom :: "real option list \<Rightarrow> real" where
  "acc_denom devs = 6 * (nansum (map (map_option (\<lambda>d. d ^ 2)) devs)) powr (3 / 2)"

definition fix_zero :: "real \<Rightarrow> real" where
  "fix_zero denom = (if denom = 0 then denom + 1 / 10 ^ 6 else denom)"

definition acceleration :: "real option \<Rightarrow> real option list \<Rightarrow> ext" where
  "acceleration mean col =
     (let devs = jack_diffs mean col
      in ext_div (Finite (acc_numer devs)) (Finite (fix_zero (acc_denom devs))))"

text \<open>Lines 197-202: the adjusted percentile rank for a normal quantile \<open>z\<close>.\<close>

definition bca_rank :: "(real \<Rightarrow> real) \<Rightarrow> ext \<Rightarrow> ext \<Rightarrow> ext \<Rightarrow> ext" where
  "bca_rank cdf z0 acc z =
     (let term = ext_div (ext_add z0 z) (ext_add (Finite 1) (ext_neg (ext_mul acc (ext_add z0 z))))
      in ext_mul (norm_cdf cdf (ext_add z0 term)) (Finite 100))"

text \<open>
  Lines 171-216: method \<open>bca\<close>, given the jackknife scores and means. The result is
  the adjusted ranks and the intervals, one per metric.
\<close>

definition method_bca ::
  "(real \<Rightarrow> real) \<Rightarrow> (real \<Rightarrow> real) \<Rightarrow> interpolation \<Rightarrow> nat \<Rightarrow> real \<Rightarrow> real option list \<Rightarrow>
   real option list list \<Rightarrow> real option list list \<times> real option list \<Rightarrow>
   error + ((ext \<times> ext) list \<times> (real option \<times> real option) list)" where
  "method_bca ppf cdf interp n a stat_vals scores j =
     (let m = length stat_vals;
          z0 = map (\<lambda>i. bias_correction ppf n (stat_vals ! i) (column i scores)) [0..<m];
          acc = map (\<lambda>i. acceleration (snd j ! i) (column i (fst j))) [0..<m];
          zl = norm_ppf ppf (a / 2);
          zu = norm_ppf ppf (1 - a / 2);
          lower_q = map (\<lambda>i. bca_rank cdf (z0 ! i) (acc ! i) zl) [0..<m];
          upper_q = map (\<lambda>i. bca_rank cdf (z0 ! i) (acc ! i) zu) [0..<m]
      in case collect (map (\<lambda>i. nanpercentile interp (column i scores) (lower_q ! i, upper_q ! i)) [0..<m]) of
           Inl err \<Rightarrow> Inl err
         | Inr bounds \<Rightarrow> Inr (zip lower_q upper_q, bounds))"

subsection \<open>\<open>boot_cis.__init__\<close>\<close>

text \<open>
  The calls made to the metric function and to the sampling primitive are recorded, in
  order, next to the outcome.
\<close>

datatype event = ClfMetrics | BootSample int

text \<open>Lines 120-137: the bootstrap samples and their metrics.\<close>

definition resample ::
  "('t, 'g, 's, 'k) tools_module option \<Rightarrow> 't list \<Rightarrow> 'g list \<Rightarrow> 's list option \<Rightarrow> 'k list option \<Rightarrow>
   bool \<Rightarrow> int list \<Rightarrow> event list \<times> (error + real option list list)" where
  "resample tools targets guesses sample_by average_by weighted seeds =
     (let inputs = boot_input targets sample_by seeds
      in case tools of
           None \<Rightarrow> ([], Inl NameError)
         | Some m \<Rightarrow>
             (let boots = boots_of m inputs;
                  sampled = map BootSample seeds
              in case collect (map (\<lambda>boot.
                        case np_take targets boot of
                          Inl err \<Rightarrow> Inl err
                        | Inr t \<Rightarrow>
                            (case np_take guesses boot of
                               Inl err \<Rightarrow> Inl err
                             | Inr g \<Rightarrow>
                                 (case average_by of
                                    None \<Rightarrow> Inr (t, g, PlainCall)
                                  | Some avg \<Rightarrow>
                                      (case np_take avg boot of
                                         Inl err \<Rightarrow> Inl err
                                       | Inr k \<Rightarrow> Inr (t, g, BootCall (Some k) weighted))))) boots) of
                   Inl err \<Rightarrow> (sampled, Inl err)
                 | Inr calls \<Rightarrow>
                     (sampled @ replicate (length calls) ClfMetrics,
                      pd_concat (map (\<lambda>(t, g, c). clf_metrics m t g c) calls))))"

record cis_out =
  cis_tab :: "(real option \<times> real option \<times> real option) list"
  scores_out :: "real option list list"
  ranks :: "(ext \<times> ext) list option"

definition with_stat :: "real option list \<Rightarrow> (real option \<times> real option) list \<Rightarrow>
   (real option \<times> real option \<times> real option) list" where
  "with_stat stat bounds = map (\<lambda>j. (stat ! j, fst (bounds ! j), snd (bounds ! j))) [0..<length stat]"

text \<open>Lines 140-141: the percentile ranks of a significance level.\<close>

definition percentile_ranks :: "real \<Rightarrow> real \<times> real" where
  "percentile_ranks a = (let lower = a / 2 * 100; upper = 100 - lower in (lower, upper))"

definition methods :: "string list" where
  "methods = [''pct'', ''diff'', ''bca'']"

text \<open>
  \<open>__init__\<close> (lines 103-226). \<open>g\<close> is the state of numpy's global generator when the
  constructor is entered. The interpolation policy is one of numpy's five. Line 104 is
  the first to read \<open>tools\<close>. Assertions are enabled.
\<close>

definition boot_cis ::
  "'r env \<Rightarrow> ('t, 'g, 's, 'k) tools_module option \<Rightarrow> 't list \<Rightarrow> 'g list \<Rightarrow> 's list option \<Rightarrow> nat \<Rightarrow>
   real \<Rightarrow> string \<Rightarrow> interpolation \<Rightarrow> 'k list option \<Rightarrow> bool \<Rightarrow> bool \<Rightarrow> int option \<Rightarrow> 'r \<Rightarrow>
   event list \<times> (error + cis_out)" where
  "boot_cis e tools targets guesses sample_by n a method interp average_by weighted mcnemar seed g =
     (case tools of
        None \<Rightarrow> ([], Inl NameError)
      | Some m \<Rightarrow>
          (let stat = clf_metrics m targets guesses (PointCall average_by weighted mcnemar)
           in case derive_seeds e seed n g of
                Inl err \<Rightarrow> ([ClfMetrics], Inl err)
              | Inr (seeds, g1) \<Rightarrow>
                  (let (ev, boot) = resample tools targets guesses sample_by average_by weighted seeds;
                       trace = ClfMetrics # ev
                   in case boot of
                        Inl err \<Rightarrow> (trace, Inl err)
                      | Inr scores \<Rightarrow>
                          let (lower, upper) = percentile_ranks a
                          in if method \<notin> set methods then (trace, Inl AssertionError)
                             else if method = ''pct'' then
                               (trace, case method_pct interp scores (length stat) lower upper of
                                         Inl err \<Rightarrow> Inl err
                                       | Inr b \<Rightarrow>
                                           Inr \<lparr>cis_tab = with_stat stat b, scores_out = scores,
                                                ranks = None\<rparr>)
                             else if method = ''diff'' then
                               (trace, case method_diff interp stat scores lower upper of
                                         Inl err \<Rightarrow> Inl err
                                       | Inr b \<Rightarrow>
                                           Inr \<lparr>cis_tab = with_stat stat b, scores_out = scores,
                                                ranks = None\<rparr>)
                             else
                               (case jackknife_metrics tools (length stat) targets guesses of
                                  Inl err \<Rightarrow> (trace, Inl err)
                                | Inr j \<Rightarrow>
                                    (trace @ replicate (length (fst j)) ClfMetrics,
                                     case method_bca (ppf_of e) (cdf_of e) interp n a stat scores j of
                                       Inl err \<Rightarrow> Inl err
                                     | Inr (q, b) \<Rightarrow>
                                         Inr \<lparr>cis_tab = with_stat stat b, scores_out = scores,
                                              ranks = Some q\<rparr>)))))"

subsection \<open>A small environment\<close>

text \<open>
  An environment on which the functions above can be evaluated: the generator is a
  counter and the quantile and distribution functions are those of the uniform
  distribution on \<open>[-1, 1]\<close>; in the module \<open>demo_tools\<close> the metric is the mean of the
  resampled targets and a resample repeats the entry at position \<open>seed mod N\<close>.
\<close>

definition demo_env :: "int env" where
  "demo_env =
     \<lparr>rng_seed = (\<lambda>s. case s of SeedInt i \<Rightarrow> i | SeedArray xs \<Rightarrow> sum_list xs),
      rng_draw = (\<lambda>low high g. (low + g mod (high - low), g + 1)),
      ppf_of = (\<lambda>p. 2 * p - 1),
      cdf_of = (\<lambda>x. (x + 1) / 2)\<rparr>"

definition demo_tools :: "(int, int, unit, unit) tools_module" where
  "demo_tools =
     \<lparr>clf_metrics = (\<lambda>t g c. [Some (real_of_int (sum_list t) / real (length t))]),
      boot_sample = (\<lambda>t s seed. replicate (length t) (nat seed mod length t))\<rparr>"

section \<open>Properties\<close>

subsection \<open>Dictionaries and time stamps\<close>

lemma update_fresh: "k \<notin> fst ` set d \<Longrightarrow> AList.update k v d = d @ [(k, v)]"
  by (induction d) auto

lemma py_dict_acc:
  "distinct (map fst (d @ kvs)) \<Longrightarrow> foldl (\<lambda>d (k, v). AList.update k v d) d kvs = d @ kvs"
proof (induction kvs arbitrary: d)
  case Nil
  then show ?case by simp
next
  case (Cons kv kvs)
  obtain k v where kv: "kv = (k, v)" by (cases kv)
  from Cons.prems have fresh: "k \<notin> fst ` set d" by (auto simp: kv)
  from Cons.prems have "distinct (map fst ((d @ [(k, v)]) @ kvs))" by (simp add: kv)
  then have "foldl (\<lambda>d (k, v). AList.update k v d) (d @ [(k, v)]) kvs = (d @ [(k, v)]) @ kvs"
    by (rule Cons.IH)
  then show ?case by (simp add: kv update_fresh [OF fresh])
qed

lemma py_dict_distinct: "distinct (map fst kvs) \<Longrightarrow> py_dict kvs = kvs"
  unfolding py_dict_def using py_dict_acc [of "[]" kvs] by simp

lemma from_days_eq: "from_days = [(''dfi'', 1), (''hfi'', 24), (''mfi'', 1440)]"
  by (simp add: from_days_def agg_lvls_def py_dict_def)

lemma from_seconds_eq: "from_seconds = [(''dfi'', 86400), (''hfi'', 3600), (''mfi'', 60)]"
  by (simp add: from_seconds_def agg_lvls_def py_dict_def)

lemma concat_map_upt:
  "concat (map (\<lambda>a. map (f a) [0..<n]) [0..<m]) = map (\<lambda>i. f (i div n) (i mod n)) [0..<m * n]"
proof (induction m)
  case 0
  then show ?case by simp
next
  case (Suc m)
  have "[m * n..<m * n + n] = map (\<lambda>j. j + m * n) [0..<n]"
    by (simp add: map_add_upt add.commute)
  then have "map (\<lambda>i. f (i div n) (i mod n)) [m * n..<m * n + n] =
      map (\<lambda>j. f ((j + m * n) div n) ((j + m * n) mod n)) [0..<n]"
    by (simp only: map_map o_def)
  also have "\<dots> = map (f m) [0..<n]"
    by (rule map_cong) auto
  finally have tail: "map (\<lambda>i. f (i div n) (i mod n)) [m * n..<m * n + n] = map (f m) [0..<n]" .
  have "[0..<m * n + n] = [0..<m * n] @ [m * n..<m * n + n]"
    by (rule upt_add_eq_append) simp
  moreover have "Suc m * n = m * n + n"
    by simp
  ultimately have split: "[0..<Suc m * n] = [0..<m * n] @ [m * n..<m * n + n]"
    by (simp only:)
  have "concat (map (\<lambda>a. map (f a) [0..<n]) [0..<Suc m]) =
      concat (map (\<lambda>a. map (f a) [0..<n]) [0..<m]) @ map (f m) [0..<n]"
    by simp
  also have "\<dots> = map (\<lambda>i. f (i div n) (i mod n)) [0..<m * n] @
      map (\<lambda>i. f (i div n) (i mod n)) [m * n..<m * n + n]"
    by (simp only: Suc tail)
  also have "\<dots> = map (\<lambda>i. f (i div n) (i mod n)) [0..<Suc m * n]"
    by (simp only: split map_append)
  finally show ?case .
qed

lemma digit_char_code: "d < 10 \<Longrightarrow> (of_char (digit_char d) :: nat) = 48 + d"
proof -
  assume "d < 10"
  then have "d = 0 \<or> d = 1 \<or> d = 2 \<or> d = 3 \<or> d = 4 \<or> d = 5 \<or> d = 6 \<or> d = 7 \<or> d = 8 \<or> d = 9"
    by arith
  then show ?thesis
    by (elim disjE) (simp_all add: digit_char_def)
qed

lemma digit_char_inj:
  assumes "a < 10" "b < 10" "digit_char a = digit_char b"
  shows "a = b"
proof -
  have "(48::nat) + a = of_char (digit_char a)"
    using assms(1) by (rule digit_char_code [symmetric])
  also have "\<dots> = of_char (digit_char b)"
    by (simp only: assms(3))
  also have "\<dots> = 48 + b"
    using assms(2) by (rule digit_char_code)
  finally show ?thesis by arith
qed

lemma fmt_02d_two: "n < 100 \<Longrightarrow> fmt_02d n = [digit_char (n div 10), digit_char (n mod 10)]"
proof (cases "n < 10")
  case True
  then have "str_nat n = [digit_char n]" by (simp add: str_nat.simps [of n])
  moreover have "digit_char 0 = CHR ''0''" by (simp add: digit_char_def)
  ultimately show ?thesis using True by (simp add: fmt_02d_def)
next
  case False
  assume "n < 100"
  with False have d: "n div 10 < 10" by simp
  have "str_nat n = str_nat (n div 10) @ [digit_char (n mod 10)]"
    using False by (simp add: str_nat.simps [of n])
  moreover have "str_nat (n div 10) = [digit_char (n div 10)]"
    using d by (simp add: str_nat.simps [of "n div 10"])
  ultimately show ?thesis by (simp add: fmt_02d_def)
qed

lemma fmt_02d_inj: "a < 100 \<Longrightarrow> b < 100 \<Longrightarrow> fmt_02d a = fmt_02d b \<Longrightarrow> a = b"
proof -
  assume a: "a < 100" and b: "b < 100" and e: "fmt_02d a = fmt_02d b"
  from e have "digit_char (a div 10) = digit_char (b div 10)" "digit_char (a mod 10) = digit_char (b mod 10)"
    by (simp_all add: fmt_02d_two a b)
  moreover have "a div 10 < 10" "b div 10 < 10" "a mod 10 < 10" "b mod 10 < 10" using a b by simp_all
  ultimately have "a div 10 = b div 10" "a mod 10 = b mod 10"
    using digit_char_inj [of "a div 10" "b div 10"] digit_char_inj [of "a mod 10" "b mod 10"]
    by blast+
  then show ?thesis by (metis div_mult_mod_eq)
qed

lemma hms_inj:
  assumes "a < 100" "b < 100" "c < 100" "a' < 100" "b' < 100" "c' < 100" "hms a b c = hms a' b' c'"
  shows "a = a' \<and> b = b' \<and> c = c'"
proof -
  from assms have "fmt_02d a = fmt_02d a' \<and> fmt_02d b = fmt_02d b' \<and> fmt_02d c = fmt_02d c'"
    by (simp add: hms_def fmt_02d_two)
  with assms show ?thesis by (auto dest: fmt_02d_inj)
qed

lemma time_stamps_eq: "time_stamps = map hms_at [0..<86400]"
proof -
  have inner: "concat (map (\<lambda>b. map (\<lambda>c. hms a b c) [0..<60]) [0..<60]) =
      map (\<lambda>j. hms a (j div 60) (j mod 60)) [0..<3600]" for a
    using concat_map_upt [of "hms a" 60 60] by simp
  have "time_stamps = concat (map (\<lambda>a. map (\<lambda>j. hms a (j div 60) (j mod 60)) [0..<3600]) [0..<24])"
    unfolding time_stamps_def by (simp only: inner)
  also have "\<dots> = map (\<lambda>i. hms (i div 3600) (i mod 3600 div 60) (i mod 3600 mod 60)) [0..<24 * 3600]"
    by (rule concat_map_upt [of "\<lambda>a j. hms a (j div 60) (j mod 60)" 3600 24])
  finally show ?thesis
    by (simp add: hms_at_def [abs_def])
qed

lemma hms_at_inj: "i < 86400 \<Longrightarrow> j < 86400 \<Longrightarrow> hms_at i = hms_at j \<Longrightarrow> i = j"
proof -
  assume i: "i < 86400" and j: "j < 86400" and e: "hms_at i = hms_at j"
  have bi: "i div 3600 < 100" "i mod 3600 div 60 < 100" "i mod 3600 mod 60 < 100"
    using i by auto
  have bj: "j div 3600 < 100" "j mod 3600 div 60 < 100" "j mod 3600 mod 60 < 100"
    using j by auto
  from hms_inj [OF bi bj] e
  have "i div 3600 = j div 3600" "i mod 3600 div 60 = j mod 3600 div 60"
       "i mod 3600 mod 60 = j mod 3600 mod 60"
    by (simp_all add: hms_at_def)
  then have "i mod 3600 = j mod 3600" "i div 3600 = j div 3600"
    by (metis div_mult_mod_eq)+
  then show ?thesis
    by (metis div_mult_mod_eq)
qed

lemma distinct_time_stamps: "distinct time_stamps"
  unfolding time_stamps_eq
  by (auto simp: distinct_map inj_on_def dest: hms_at_inj)

lemma length_time_stamps: "length time_stamps = 86400"
  by (simp add: time_stamps_eq)

lemma time_dict_eq: "time_dict = map (\<lambda>i. (hms_at i, i)) [0..<86400]"
proof -
  have z: "zip time_stamps [0..<length time_stamps] = map (\<lambda>i. (hms_at i, i)) [0..<86400]"
    unfolding length_time_stamps unfolding time_stamps_eq
    by (simp only: zip_map1 zip_same_conv_map map_map o_def split_def fst_conv snd_conv)
  have "distinct (map fst (zip time_stamps [0..<length time_stamps]))"
    using distinct_time_stamps by simp
  then show ?thesis
    unfolding time_dict_def by (simp only: py_dict_distinct z)
qed

lemma time_dict_at: "i < 86400 \<Longrightarrow> dict_get time_dict (hms_at i) = Some i"
proof -
  assume i: "i < 86400"
  have d: "distinct (map fst (map (\<lambda>i. (hms_at i, i)) [0..<86400]))"
    using distinct_time_stamps unfolding time_stamps_eq by (simp add: o_def)
  have "(hms_at i, i) \<in> set (map (\<lambda>i. (hms_at i, i)) [0..<86400])"
    using i by auto
  then show ?thesis
    unfolding dict_get_def time_dict_eq using d by (simp only: map_of_eq_Some_iff)
qed

lemma time_dict_hms:
  assumes "h < 24" "m < 60" "s < 60"
  shows "dict_get time_dict (hms h m s) = Some (h * 3600 + m * 60 + s)"
proof -
  let ?i = "h * 3600 + m * 60 + s"
  have "?i < 86400" using assms by simp
  moreover have "hms_at ?i = hms h m s"
  proof -
    have r: "m * 60 + s < 3600" using assms by simp
    have i: "?i = (m * 60 + s) + h * 3600" by simp
    have d: "?i div 3600 = h" unfolding i using r by simp
    have md: "?i mod 3600 = m * 60 + s" unfolding i using r by simp
    have "(m * 60 + s) div 60 = m" "(m * 60 + s) mod 60 = s"
      using assms by simp_all
    then show ?thesis
      by (simp only: hms_at_def d md)
  qed
  ultimately show ?thesis
    using time_dict_at [of ?i] by simp
qed

lemma time_dict_dom: "dict_get time_dict t = Some v \<Longrightarrow> v < 86400 \<and> t = hms_at v"
  unfolding dict_get_def time_dict_eq
  by (auto dest!: map_of_SomeD)

lemma from_days_cases:
  "dict_get from_days lvl = Some k \<longleftrightarrow> (lvl = ''dfi'' \<and> k = 1) \<or> (lvl = ''hfi'' \<and> k = 24) \<or> (lvl = ''mfi'' \<and> k = 1440)"
  by (auto simp: dict_get_def from_days_eq)

lemma from_seconds_cases:
  "dict_get from_seconds lvl = Some k \<longleftrightarrow>
     (lvl = ''dfi'' \<and> k = 86400) \<or> (lvl = ''hfi'' \<and> k = 3600) \<or> (lvl = ''mfi'' \<and> k = 60)"
  by (auto simp: dict_get_def from_seconds_eq)

lemma init_Inr:
  assumes "init idt lvl = Inr self"
  shows "\<exists>k. dict_get from_days lvl = Some k \<and>
     self = \<lparr>agg_level = lvl,
             visit_timing = Future \<lparr>tt_col = lvl, tt_rows = map (\<lambda>r. (id_pat_key r, days_from_index r * k)) idt\<rparr>,
             id_table = Future idt\<rparr>"
  using assms
  by (auto simp: init_def get_visit_timing_def subscript_def split: option.splits)

lemma init_Inr_iff: "(\<exists>self. init idt lvl = Inr self) \<longleftrightarrow> lvl \<in> {''dfi'', ''hfi'', ''mfi''}"
  by (auto simp: init_def get_visit_timing_def subscript_def dict_get_def from_days_eq split: option.splits)

lemma left_join_map_tab:
  "left_join key xs (map (\<lambda>r. (kf r, vf r)) tab) =
     concat (map (\<lambda>x. case filter (\<lambda>r. kf r = key x) tab of
                          [] \<Rightarrow> [(x, None)]
                        | ms \<Rightarrow> map (\<lambda>r. (x, Some (vf r))) ms) xs)"
proof -
  have "(case filter (\<lambda>kv. fst kv = key x) (map (\<lambda>r. (kf r, vf r)) tab) of
            [] \<Rightarrow> [(x, None)] | ms \<Rightarrow> map (\<lambda>kv. (x, Some (snd kv))) ms) =
        (case filter (\<lambda>r. kf r = key x) tab of
            [] \<Rightarrow> [(x, None)] | ms \<Rightarrow> map (\<lambda>r. (x, Some (vf r))) ms)" for x
    by (simp add: filter_map o_def split: list.splits)
  then show ?thesis
    unfolding left_join_def by simp
qed

lemma get_timing_day_only:
  assumes "init idt lvl = Inr self" "dict_get from_days lvl = Some k"
  shows "get_timing self df (Some dc) False None =
     Inr \<lparr>out_col = lvl,
          out_rows = concat (map (\<lambda>r.
            case filter (\<lambda>i. id_pat_key i = pat_key r) idt of
              [] \<Rightarrow> [(r, None)]
            | ms \<Rightarrow> map (\<lambda>i. (r, Some (real_of_int ((days_from_index i + dc r) * k)))) ms) df)\<rparr>"
proof -
  from init_Inr [OF assms(1)] assms(2)
  have self: "self = \<lparr>agg_level = lvl,
             visit_timing = Future \<lparr>tt_col = lvl, tt_rows = map (\<lambda>r. (id_pat_key r, days_from_index r * k)) idt\<rparr>,
             id_table = Future idt\<rparr>"
    by auto
  have "map (\<lambda>(r, v). (r, nan_add v (Some (real_of_int (dc r * k)))))
          (map (\<lambda>(r, v). (r, map_option real_of_int v))
            (case filter (\<lambda>i. id_pat_key i = pat_key x) idt of
               [] \<Rightarrow> [(x, None)]
             | ms \<Rightarrow> map (\<lambda>i. (x, Some (days_from_index i * k))) ms)) =
        (case filter (\<lambda>i. id_pat_key i = pat_key x) idt of
              [] \<Rightarrow> [(x, None)]
            | ms \<Rightarrow> map (\<lambda>i. (x, Some (real_of_int ((days_from_index i + dc x) * k)))) ms)" for x
    by (simp add: nan_add_def algebra_simps split: list.splits)
  then show ?thesis
    unfolding self get_timing_def
    by (simp add: result_def add_day_def assms(2) left_join_map_tab map_concat o_def)
qed

subsection \<open>Temporal alignment\<close>

lemma hms_example: "hms 0 1 0 = ''00:01:00''"
  by (simp add: hms_def fmt_02d_def str_nat.simps digit_char_def)

text \<open>
  Claim C7. For a pipeline built by \<open>__init__\<close> at level \<open>lvl\<close>, a timing request with
  a day column, no visit-end anchoring and no time-of-day column gives, for every record
  and every id row of its entity, the value (index day-offset + record day-offset) times
  the multiplier of the level (a record whose entity has no id row gets a missing value).
  In particular index offset 0 and day offset \<open>d\<close> at level \<open>dfi\<close> give \<open>d\<close>, and
  index offset 2 and day offset 1 at level \<open>hfi\<close> give 72.
\<close>

theorem timeline_offsets_times_multiplier:
  "(init idt lvl = Inr self \<longrightarrow>
      (\<exists>k. dict_get from_days lvl = Some k \<and>
         get_timing self df (Some dc) False None =
           Inr \<lparr>out_col = lvl,
                out_rows = concat (map (\<lambda>r.
                  case filter (\<lambda>i. id_pat_key i = pat_key r) idt of
                    [] \<Rightarrow> [(r, None)]
                  | ms \<Rightarrow> map (\<lambda>i. (r, Some (real_of_int ((days_from_index i + dc r) * k)))) ms) df)\<rparr>)) \<and>
   (\<exists>s. init [\<lparr>id_pat_key = p, days_from_index = 0, los = l\<rparr>] ''dfi'' = Inr s \<and>
      get_timing s [\<lparr>pat_key = p, ftr = f, day = d, tod = t\<rparr>] (Some day) False None =
        Inr \<lparr>out_col = ''dfi'',
             out_rows = [(\<lparr>pat_key = p, ftr = f, day = d, tod = t\<rparr>, Some (real_of_int d))]\<rparr>) \<and>
   (\<exists>s. init [\<lparr>id_pat_key = p, days_from_index = 2, los = l\<rparr>] ''hfi'' = Inr s \<and>
      get_timing s [\<lparr>pat_key = p, ftr = f, day = 1, tod = t\<rparr>] (Some day) False None =
        Inr \<lparr>out_col = ''hfi'',
             out_rows = [(\<lparr>pat_key = p, ftr = f, day = 1, tod = t\<rparr>, Some 72)]\<rparr>)"
proof (intro conjI impI)
  assume i: "init idt lvl = Inr self"
  from init_Inr [OF i] obtain k where k: "dict_get from_days lvl = Some k"
    by blast
  from get_timing_day_only [OF i k] k
  show "\<exists>k. dict_get from_days lvl = Some k \<and>
         get_timing self df (Some dc) False None =
           Inr \<lparr>out_col = lvl,
                out_rows = concat (map (\<lambda>r.
                  case filter (\<lambda>i. id_pat_key i = pat_key r) idt of
                    [] \<Rightarrow> [(r, None)]
                  | ms \<Rightarrow> map (\<lambda>i. (r, Some (real_of_int ((days_from_index i + dc r) * k)))) ms) df)\<rparr>"
    by blast
next
  obtain s where s: "init [\<lparr>id_pat_key = p, days_from_index = 0, los = l\<rparr>] ''dfi'' = Inr s"
    using init_Inr_iff [of "[\<lparr>id_pat_key = p, days_from_index = 0, los = l\<rparr>]" "''dfi''"] by auto
  have k: "dict_get from_days ''dfi'' = Some 1"
    by (simp add: from_days_cases)
  from get_timing_day_only [OF s k, of "[\<lparr>pat_key = p, ftr = f, day = d, tod = t\<rparr>]" day] s
  show "\<exists>s. init [\<lparr>id_pat_key = p, days_from_index = 0, los = l\<rparr>] ''dfi'' = Inr s \<and>
      get_timing s [\<lparr>pat_key = p, ftr = f, day = d, tod = t\<rparr>] (Some day) False None =
        Inr \<lparr>out_col = ''dfi'',
             out_rows = [(\<lparr>pat_key = p, ftr = f, day = d, tod = t\<rparr>, Some (real_of_int d))]\<rparr>"
    by simp
next
  obtain s where s: "init [\<lparr>id_pat_key = p, days_from_index = 2, los = l\<rparr>] ''hfi'' = Inr s"
    using init_Inr_iff [of "[\<lparr>id_pat_key = p, days_from_index = 2, los = l\<rparr>]" "''hfi''"] by auto
  have k: "dict_get from_days ''hfi'' = Some 24"
    by (simp add: from_days_cases)
  from get_timing_day_only [OF s k, of "[\<lparr>pat_key = p, ftr = f, day = 1, tod = t\<rparr>]" day] s
  show "\<exists>s. init [\<lparr>id_pat_key = p, days_from_index = 2, los = l\<rparr>] ''hfi'' = Inr s \<and>
      get_timing s [\<lparr>pat_key = p, ftr = f, day = 1, tod = t\<rparr>] (Some day) False None =
        Inr \<lparr>out_col = ''hfi'',
             out_rows = [(\<lparr>pat_key = p, ftr = f, day = 1, tod = t\<rparr>, Some 72)]\<rparr>"
    by simp
qed

lemma init_example:
  "init [\<lparr>id_pat_key = 7, days_from_index = 2, los = 3\<rparr>, \<lparr>id_pat_key = 8, days_from_index = - 4, los = 1\<rparr>] ''hfi'' =
     Inr \<lparr>agg_level = ''hfi'',
          visit_timing = Future \<lparr>tt_col = ''hfi'', tt_rows = [(7, 48), (8, - 96)]\<rparr>,
          id_table = Future [\<lparr>id_pat_key = 7, days_from_index = 2, los = 3\<rparr>,
                             \<lparr>id_pat_key = 8, days_from_index = - 4, los = 1\<rparr>]\<rparr>"
  by (simp add: init_def get_visit_timing_def subscript_def dict_get_def from_days_eq)

theorem timeline_offsets_times_multiplier_witness:
  "init [\<lparr>id_pat_key = 7, days_from_index = 2, los = 3\<rparr>, \<lparr>id_pat_key = 8, days_from_index = - 4, los = 1\<rparr>] ''hfi'' =
     Inr \<lparr>agg_level = ''hfi'',
          visit_timing = Future \<lparr>tt_col = ''hfi'', tt_rows = [(7, 48), (8, - 96)]\<rparr>,
          id_table = Future [\<lparr>id_pat_key = 7, days_from_index = 2, los = 3\<rparr>,
                             \<lparr>id_pat_key = 8, days_from_index = - 4, los = 1\<rparr>]\<rparr> \<and>
   get_timing \<lparr>agg_level = ''hfi'',
          visit_timing = Future \<lparr>tt_col = ''hfi'', tt_rows = [(7, 48), (8, - 96)]\<rparr>,
          id_table = Future [\<lparr>id_pat_key = 7, days_from_index = 2, los = 3\<rparr>,
                             \<lparr>id_pat_key = 8, days_from_index = - 4, los = 1\<rparr>]\<rparr>
      [\<lparr>pat_key = 7, ftr = ''vtl0'', day = 1, tod = ''00:01:00''\<rparr>,
       \<lparr>pat_key = 8, ftr = ''vtl1'', day = 3, tod = ''00:02:00''\<rparr>,
       \<lparr>pat_key = 9, ftr = ''vtl1'', day = 0, tod = ''00:03:00''\<rparr>] (Some day) False None =
     Inr \<lparr>out_col = ''hfi'',
          out_rows = [(\<lparr>pat_key = 7, ftr = ''vtl0'', day = 1, tod = ''00:01:00''\<rparr>, Some 72),
                      (\<lparr>pat_key = 8, ftr = ''vtl1'', day = 3, tod = ''00:02:00''\<rparr>, Some (- 24)),
                      (\<lparr>pat_key = 9, ftr = ''vtl1'', day = 0, tod = ''00:03:00''\<rparr>, None)]\<rparr>"
proof -
  note i = init_example
  have k: "dict_get from_days ''hfi'' = Some k \<longleftrightarrow> k = 24" for k
    by (simp add: from_days_cases)
  from timeline_offsets_times_multiplier [THEN conjunct1, rule_format, OF i,
      of "[\<lparr>pat_key = 7, ftr = ''vtl0'', day = 1, tod = ''00:01:00''\<rparr>,
       \<lparr>pat_key = 8, ftr = ''vtl1'', day = 3, tod = ''00:02:00''\<rparr>,
       \<lparr>pat_key = 9, ftr = ''vtl1'', day = 0, tod = ''00:03:00''\<rparr>]" day]
  show ?thesis
    using i by (simp add: k)
qed

text \<open>
  Claim C9 fails on the code. After \<open>__init__\<close> the attribute \<open>self.id\<close> is a future,
  which \<open>get_visit_timing\<close> cannot subscript: \<open>reset_agg_level\<close> raises \<open>TypeError\<close>
  for every new level, having already stored the level and leaving the old visit timing
  in place. And from any state in which the reset does return, the visit timing is a
  lazy dataframe, not a future, so the next \<open>get_timing\<close> raises \<open>AttributeError\<close>
  at \<open>self.visit_timing.result()\<close>.
\<close>

theorem reset_agg_level_raises:
  "(init idt lvl = Inr self \<longrightarrow>
      reset_agg_level self new_level = (self\<lparr>agg_level := new_level\<rparr>, Inl TypeError)) \<and>
   (snd (reset_agg_level s new_level) = Inr () \<longrightarrow>
      get_timing (fst (reset_agg_level s new_level)) df day_col end_of_visit time_col =
        Inl AttributeError)"
proof (intro conjI impI)
  assume "init idt lvl = Inr self"
  from init_Inr [OF this] have "id_table self = Future idt"
    by auto
  then show "reset_agg_level self new_level = (self\<lparr>agg_level := new_level\<rparr>, Inl TypeError)"
    by (simp add: reset_agg_level_def get_visit_timing_def subscript_def)
next
  assume "snd (reset_agg_level s new_level) = Inr ()"
  then show "get_timing (fst (reset_agg_level s new_level)) df day_col end_of_visit time_col =
        Inl AttributeError"
    by (auto simp: reset_agg_level_def get_timing_def result_def Let_def split: sum.splits)
qed

theorem reset_agg_level_raises_witness:
  "init [\<lparr>id_pat_key = 7, days_from_index = 2, los = 3\<rparr>, \<lparr>id_pat_key = 8, days_from_index = - 4, los = 1\<rparr>] ''hfi'' =
     Inr \<lparr>agg_level = ''hfi'',
          visit_timing = Future \<lparr>tt_col = ''hfi'', tt_rows = [(7, 48), (8, - 96)]\<rparr>,
          id_table = Future [\<lparr>id_pat_key = 7, days_from_index = 2, los = 3\<rparr>,
                             \<lparr>id_pat_key = 8, days_from_index = - 4, los = 1\<rparr>]\<rparr> \<and>
   reset_agg_level \<lparr>agg_level = ''hfi'',
          visit_timing = Future \<lparr>tt_col = ''hfi'', tt_rows = [(7, 48), (8, - 96)]\<rparr>,
          id_table = Future [\<lparr>id_pat_key = 7, days_from_index = 2, los = 3\<rparr>,
                             \<lparr>id_pat_key = 8, days_from_index = - 4, los = 1\<rparr>]\<rparr> ''mfi'' =
     (\<lparr>agg_level = ''mfi'',
          visit_timing = Future \<lparr>tt_col = ''hfi'', tt_rows = [(7, 48), (8, - 96)]\<rparr>,
          id_table = Future [\<lparr>id_pat_key = 7, days_from_index = 2, los = 3\<rparr>,
                             \<lparr>id_pat_key = 8, days_from_index = - 4, los = 1\<rparr>]\<rparr>, Inl TypeError) \<and>
   snd (reset_agg_level \<lparr>agg_level = ''hfi'',
          visit_timing = Future \<lparr>tt_col = ''hfi'', tt_rows = [(7, 48)]\<rparr>,
          id_table = Lazy [\<lparr>id_pat_key = 7, days_from_index = 2, los = 3\<rparr>]\<rparr> ''mfi'') = Inr () \<and>
   get_timing (fst (reset_agg_level \<lparr>agg_level = ''hfi'',
          visit_timing = Future \<lparr>tt_col = ''hfi'', tt_rows = [(7, 48)]\<rparr>,
          id_table = Lazy [\<lparr>id_pat_key = 7, days_from_index = 2, los = 3\<rparr>]\<rparr> ''mfi''))
      [\<lparr>pat_key = 7, ftr = ''vtl0'', day = 1, tod = ''00:01:00''\<rparr>] (Some day) False None =
     Inl AttributeError"
proof -
  note i = init_example
  have r: "snd (reset_agg_level \<lparr>agg_level = ''hfi'',
          visit_timing = Future \<lparr>tt_col = ''hfi'', tt_rows = [(7, 48)]\<rparr>,
          id_table = Lazy [\<lparr>id_pat_key = 7, days_from_index = 2, los = 3\<rparr>]\<rparr> ''mfi'') = Inr ()"
    by (simp add: reset_agg_level_def get_visit_timing_def subscript_def dict_get_def from_days_eq)
  from reset_agg_level_raises [THEN conjunct1, rule_format, OF i, of "''mfi''"]
    reset_agg_level_raises [THEN conjunct2, rule_format, OF r,
      of "[\<lparr>pat_key = 7, ftr = ''vtl0'', day = 1, tod = ''00:01:00''\<rparr>]" "Some day" False None]
  show ?thesis
    using i r by simp
qed

lemma from_seconds_of_level:
  "dict_get from_days lvl = Some k \<Longrightarrow> \<exists>sk. dict_get from_seconds lvl = Some sk \<and>
     (lvl = ''dfi'' \<and> sk = 86400 \<or> lvl = ''hfi'' \<and> sk = 3600 \<or> lvl = ''mfi'' \<and> sk = 60)"
  by (auto simp: from_days_cases from_seconds_cases)

lemma get_timing_day_time:
  assumes "init idt lvl = Inr self" "dict_get from_days lvl = Some k"
    "dict_get from_seconds lvl = Some sk"
  shows "get_timing self df (Some dc) False (Some tc) =
     Inr \<lparr>out_col = lvl,
          out_rows = concat (map (\<lambda>r.
            case filter (\<lambda>i. id_pat_key i = pat_key r) idt of
              [] \<Rightarrow> [(r, None)]
            | ms \<Rightarrow> map (\<lambda>i. (r, map_option
                  (\<lambda>t. real_of_int ((days_from_index i + dc r) * k) + real t / real_of_int sk)
                  (dict_get time_dict (tc r)))) ms) df)\<rparr>"
proof -
  from init_Inr [OF assms(1)] assms(2)
  have self: "self = \<lparr>agg_level = lvl,
             visit_timing = Future \<lparr>tt_col = lvl, tt_rows = map (\<lambda>r. (id_pat_key r, days_from_index r * k)) idt\<rparr>,
             id_table = Future idt\<rparr>"
    by auto
  have "map (\<lambda>(r, v). (r, nan_add v (map_option (\<lambda>t. real t / real_of_int sk) (dict_get time_dict (tc r)))))
         (map (\<lambda>(r, v). (r, nan_add v (Some (real_of_int (dc r * k)))))
          (map (\<lambda>(r, v). (r, map_option real_of_int v))
            (case filter (\<lambda>i. id_pat_key i = pat_key x) idt of
               [] \<Rightarrow> [(x, None)]
             | ms \<Rightarrow> map (\<lambda>i. (x, Some (days_from_index i * k))) ms))) =
        (case filter (\<lambda>i. id_pat_key i = pat_key x) idt of
              [] \<Rightarrow> [(x, None)]
            | ms \<Rightarrow> map (\<lambda>i. (x, map_option
                  (\<lambda>t. real_of_int ((days_from_index i + dc x) * k) + real t / real_of_int sk)
                  (dict_get time_dict (tc x)))) ms)" for x
    by (cases "dict_get time_dict (tc x)")
       (simp_all add: nan_add_def algebra_simps split: list.splits)
  then show ?thesis
    unfolding self get_timing_def
    by (simp add: result_def add_day_def add_time_def assms(2,3) left_join_map_tab map_concat o_def)
qed

lemma hms_digits:
  "h < 24 \<Longrightarrow> m < 60 \<Longrightarrow> s < 60 \<Longrightarrow>
   hms h m s = [digit_char (h div 10), digit_char (h mod 10), CHR '':'',
                digit_char (m div 10), digit_char (m mod 10), CHR '':'',
                digit_char (s div 10), digit_char (s mod 10)]"
  by (simp add: hms_def fmt_02d_two)

lemma get_timing_time_term:
  assumes "init idt lvl = Inr self" "dict_get from_days lvl = Some k"
    "dict_get from_seconds lvl = Some sk"
  shows "\<exists>rows. get_timing self df (Some dc) end_of_visit None = Inr \<lparr>out_col = lvl, out_rows = rows\<rparr> \<and>
     get_timing self df (Some dc) end_of_visit (Some tc) =
       Inr \<lparr>out_col = lvl,
            out_rows = map (\<lambda>(r, v). (r, nan_add v
              (map_option (\<lambda>t. real t / real_of_int sk) (dict_get time_dict (tc r))))) rows\<rparr>"
proof -
  from init_Inr [OF assms(1)] assms(2)
  have self: "self = \<lparr>agg_level = lvl,
             visit_timing = Future \<lparr>tt_col = lvl, tt_rows = map (\<lambda>r. (id_pat_key r, days_from_index r * k)) idt\<rparr>,
             id_table = Future idt\<rparr>"
    by auto
  show ?thesis
    unfolding self get_timing_def
    by (cases end_of_visit)
       (simp_all add: result_def add_los_def add_day_def add_time_def assms(2,3) Let_def)
qed

lemma get_timing_no_day: "get_timing self df None end_of_visit (Some tc) = get_timing self df None end_of_visit None"
  by (simp add: get_timing_def Let_def split: sum.splits)

text \<open>
  Claim C2, as the code has it. For every hour \<open>h < 24\<close>, minute \<open>m < 60\<close> and second
  \<open>s < 60\<close> the zero-padded string \<open>hh:mm:ss\<close> is looked up to its second-of-day
  index \<open>3600 h + 60 m + s\<close>. With a day column and a time-of-day column, with or
  without visit-end anchoring, the timeline of every row is the timeline without the
  time-of-day column plus the looked-up value divided by the conversion factor of the
  level (86400 for \<open>dfi\<close>, 3600 for \<open>hfi\<close>, 60 for \<open>mfi\<close>), a missing value when the
  string is not in the table; without anchoring that is (index day-offset + record
  day-offset) times the multiplier plus the term. Without a day column the time-of-day
  column is ignored.
\<close>

theorem time_of_day_term:
  "(h < 24 \<and> m < 60 \<and> s < 60 \<longrightarrow>
      hms h m s = [digit_char (h div 10), digit_char (h mod 10), CHR '':'',
                   digit_char (m div 10), digit_char (m mod 10), CHR '':'',
                   digit_char (s div 10), digit_char (s mod 10)] \<and>
      dict_get time_dict (hms h m s) = Some (h * 3600 + m * 60 + s)) \<and>
   (init idt lvl = Inr self \<longrightarrow>
      (\<exists>k sk. dict_get from_days lvl = Some k \<and> dict_get from_seconds lvl = Some sk \<and>
         (lvl = ''dfi'' \<and> sk = 86400 \<or> lvl = ''hfi'' \<and> sk = 3600 \<or> lvl = ''mfi'' \<and> sk = 60) \<and>
         (\<exists>rows. get_timing self df (Some dc) end_of_visit None =
                    Inr \<lparr>out_col = lvl, out_rows = rows\<rparr> \<and>
                  get_timing self df (Some dc) end_of_visit (Some tc) =
                    Inr \<lparr>out_col = lvl,
                         out_rows = map (\<lambda>(r, v). (r, nan_add v
                           (map_option (\<lambda>t. real t / real_of_int sk)
                              (dict_get time_dict (tc r))))) rows\<rparr>) \<and>
         get_timing self df (Some dc) False (Some tc) =
           Inr \<lparr>out_col = lvl,
                out_rows = concat (map (\<lambda>r.
                  case filter (\<lambda>i. id_pat_key i = pat_key r) idt of
                    [] \<Rightarrow> [(r, None)]
                  | ms \<Rightarrow> map (\<lambda>i. (r, map_option
                        (\<lambda>t. real_of_int ((days_from_index i + dc r) * k) + real t / real_of_int sk)
                        (dict_get time_dict (tc r)))) ms) df)\<rparr>)) \<and>
   get_timing self df None end_of_visit (Some tc) = get_timing self df None end_of_visit None"
proof (intro conjI impI)
  assume "h < 24 \<and> m < 60 \<and> s < 60"
  then show "hms h m s = [digit_char (h div 10), digit_char (h mod 10), CHR '':'',
                   digit_char (m div 10), digit_char (m mod 10), CHR '':'',
                   digit_char (s div 10), digit_char (s mod 10)]"
    by (simp only: hms_digits)
next
  assume "h < 24 \<and> m < 60 \<and> s < 60"
  then show "dict_get time_dict (hms h m s) = Some (h * 3600 + m * 60 + s)"
    by (simp only: time_dict_hms)
next
  assume i: "init idt lvl = Inr self"
  from init_Inr [OF i] obtain k where k: "dict_get from_days lvl = Some k"
    by blast
  from from_seconds_of_level [OF k] obtain sk where sk: "dict_get from_seconds lvl = Some sk"
    and lv: "lvl = ''dfi'' \<and> sk = 86400 \<or> lvl = ''hfi'' \<and> sk = 3600 \<or> lvl = ''mfi'' \<and> sk = 60"
    by blast
  from get_timing_day_time [OF i k sk] get_timing_time_term [OF i k sk] k sk lv
  show "\<exists>k sk. dict_get from_days lvl = Some k \<and> dict_get from_seconds lvl = Some sk \<and>
         (lvl = ''dfi'' \<and> sk = 86400 \<or> lvl = ''hfi'' \<and> sk = 3600 \<or> lvl = ''mfi'' \<and> sk = 60) \<and>
         (\<exists>rows. get_timing self df (Some dc) end_of_visit None =
                    Inr \<lparr>out_col = lvl, out_rows = rows\<rparr> \<and>
                  get_timing self df (Some dc) end_of_visit (Some tc) =
                    Inr \<lparr>out_col = lvl,
                         out_rows = map (\<lambda>(r, v). (r, nan_add v
                           (map_option (\<lambda>t. real t / real_of_int sk)
                              (dict_get time_dict (tc r))))) rows\<rparr>) \<and>
         get_timing self df (Some dc) False (Some tc) =
           Inr \<lparr>out_col = lvl,
                out_rows = concat (map (\<lambda>r.
                  case filter (\<lambda>i. id_pat_key i = pat_key r) idt of
                    [] \<Rightarrow> [(r, None)]
                  | ms \<Rightarrow> map (\<lambda>i. (r, map_option
                        (\<lambda>t. real_of_int ((days_from_index i + dc r) * k) + real t / real_of_int sk)
                        (dict_get time_dict (tc r)))) ms) df)\<rparr>"
    by blast
next
  show "get_timing self df None end_of_visit (Some tc) = get_timing self df None end_of_visit None"
    by (rule get_timing_no_day)
qed

lemma anchored_example:
  "get_timing \<lparr>agg_level = ''hfi'',
          visit_timing = Future \<lparr>tt_col = ''hfi'', tt_rows = [(7, 48), (8, - 96)]\<rparr>,
          id_table = Future [\<lparr>id_pat_key = 7, days_from_index = 2, los = 3\<rparr>,
                             \<lparr>id_pat_key = 8, days_from_index = - 4, los = 1\<rparr>]\<rparr>
      [\<lparr>pat_key = 7, ftr = ''vtl0'', day = 1, tod = ''00:01:00''\<rparr>] (Some day) True None =
     Inr \<lparr>out_col = ''hfi'',
          out_rows = [(\<lparr>pat_key = 7, ftr = ''vtl0'', day = 1, tod = ''00:01:00''\<rparr>, Some 144)]\<rparr>"
  by (simp add: get_timing_def result_def left_join_def add_los_def add_day_def dict_get_def
      from_days_eq nan_add_def)

theorem time_of_day_term_witness:
  "dict_get time_dict ''00:01:00'' = Some 60 \<and>
   init [\<lparr>id_pat_key = 7, days_from_index = 2, los = 3\<rparr>, \<lparr>id_pat_key = 8, days_from_index = - 4, los = 1\<rparr>] ''hfi'' =
     Inr \<lparr>agg_level = ''hfi'',
          visit_timing = Future \<lparr>tt_col = ''hfi'', tt_rows = [(7, 48), (8, - 96)]\<rparr>,
          id_table = Future [\<lparr>id_pat_key = 7, days_from_index = 2, los = 3\<rparr>,
                             \<lparr>id_pat_key = 8, days_from_index = - 4, los = 1\<rparr>]\<rparr> \<and>
   get_timing \<lparr>agg_level = ''hfi'',
          visit_timing = Future \<lparr>tt_col = ''hfi'', tt_rows = [(7, 48), (8, - 96)]\<rparr>,
          id_table = Future [\<lparr>id_pat_key = 7, days_from_index = 2, los = 3\<rparr>,
                             \<lparr>id_pat_key = 8, days_from_index = - 4, los = 1\<rparr>]\<rparr>
      [\<lparr>pat_key = 7, ftr = ''vtl0'', day = 1, tod = ''00:01:00''\<rparr>] (Some day) True (Some tod) =
     Inr \<lparr>out_col = ''hfi'',
          out_rows = [(\<lparr>pat_key = 7, ftr = ''vtl0'', day = 1, tod = ''00:01:00''\<rparr>, Some (144 + 60 / 3600))]\<rparr> \<and>
   get_timing \<lparr>agg_level = ''hfi'',
          visit_timing = Future \<lparr>tt_col = ''hfi'', tt_rows = [(7, 48), (8, - 96)]\<rparr>,
          id_table = Future [\<lparr>id_pat_key = 7, days_from_index = 2, los = 3\<rparr>,
                             \<lparr>id_pat_key = 8, days_from_index = - 4, los = 1\<rparr>]\<rparr>
      [\<lparr>pat_key = 7, ftr = ''vtl0'', day = 1, tod = ''00:01:00''\<rparr>] (Some day) False (Some tod) =
     Inr \<lparr>out_col = ''hfi'',
          out_rows = [(\<lparr>pat_key = 7, ftr = ''vtl0'', day = 1, tod = ''00:01:00''\<rparr>, Some (72 + 60 / 3600))]\<rparr>"
proof -
  note i = init_example
  have "(0::nat) < 24 \<and> (1::nat) < 60 \<and> (0::nat) < 60"
    by simp
  from time_of_day_term [THEN conjunct1, rule_format, OF this]
  have "dict_get time_dict (hms 0 1 0) = Some (0 * 3600 + 1 * 60 + 0)"
    by (rule conjunct2)
  then have t: "dict_get time_dict ''00:01:00'' = Some 60"
    unfolding hms_example by simp
  have k: "dict_get from_days ''hfi'' = Some k \<longleftrightarrow> k = 24" for k
    by (simp add: from_days_cases)
  have sk: "dict_get from_seconds ''hfi'' = Some k \<longleftrightarrow> k = 3600" for k
    by (simp add: from_seconds_cases)
  from time_of_day_term [THEN conjunct2, THEN conjunct1, rule_format, OF i,
      of "[\<lparr>pat_key = 7, ftr = ''vtl0'', day = 1, tod = ''00:01:00''\<rparr>]" day True tod]
  have anchored: "get_timing \<lparr>agg_level = ''hfi'',
          visit_timing = Future \<lparr>tt_col = ''hfi'', tt_rows = [(7, 48), (8, - 96)]\<rparr>,
          id_table = Future [\<lparr>id_pat_key = 7, days_from_index = 2, los = 3\<rparr>,
                             \<lparr>id_pat_key = 8, days_from_index = - 4, los = 1\<rparr>]\<rparr>
      [\<lparr>pat_key = 7, ftr = ''vtl0'', day = 1, tod = ''00:01:00''\<rparr>] (Some day) True (Some tod) =
     Inr \<lparr>out_col = ''hfi'',
          out_rows = [(\<lparr>pat_key = 7, ftr = ''vtl0'', day = 1, tod = ''00:01:00''\<rparr>, Some (144 + 60 / 3600))]\<rparr>"
    unfolding anchored_example by (auto simp: k sk t nan_add_def)
  from time_of_day_term [THEN conjunct2, THEN conjunct1, rule_format, OF i,
      of "[\<lparr>pat_key = 7, ftr = ''vtl0'', day = 1, tod = ''00:01:00''\<rparr>]" day False tod]
  have plain: "get_timing \<lparr>agg_level = ''hfi'',
          visit_timing = Future \<lparr>tt_col = ''hfi'', tt_rows = [(7, 48), (8, - 96)]\<rparr>,
          id_table = Future [\<lparr>id_pat_key = 7, days_from_index = 2, los = 3\<rparr>,
                             \<lparr>id_pat_key = 8, days_from_index = - 4, los = 1\<rparr>]\<rparr>
      [\<lparr>pat_key = 7, ftr = ''vtl0'', day = 1, tod = ''00:01:00''\<rparr>] (Some day) False (Some tod) =
     Inr \<lparr>out_col = ''hfi'',
          out_rows = [(\<lparr>pat_key = 7, ftr = ''vtl0'', day = 1, tod = ''00:01:00''\<rparr>, Some (72 + 60 / 3600))]\<rparr>"
    by (auto simp: k sk t)
  from t i anchored plain show ?thesis
    by (simp only: simp_thms)
qed

text \<open>
  Claim C2, as stated, fails: the looked-up value of \<open>00:01:00\<close> is 60, its
  second-of-day index, not its minute-of-day index 1.
\<close>

theorem lookup_is_not_minute_of_day:
  "hms 0 1 0 = ''00:01:00'' \<and> dict_get time_dict ''00:01:00'' = Some 60 \<and>
   dict_get time_dict ''00:01:00'' \<noteq> Some (0 * 60 + 1)"
proof -
  have "dict_get time_dict (hms 0 1 0) = Some (0 * 3600 + 1 * 60 + 0)"
    by (rule time_dict_hms) simp_all
  then have "dict_get time_dict ''00:01:00'' = Some 60"
    unfolding hms_example by simp
  then show ?thesis
    using hms_example by simp
qed

subsection \<open>Feature codec\<close>

lemma set_unique_acc: "set (unique_acc seen xs) = set xs - set seen"
  by (induction seen xs rule: unique_acc.induct) auto

lemma distinct_unique_acc: "distinct (unique_acc seen xs)"
  by (induction seen xs rule: unique_acc.induct) (auto simp: set_unique_acc)

lemma set_unique: "set (unique xs) = set xs"
  by (simp add: unique_def set_unique_acc)

lemma distinct_unique: "distinct (unique xs)"
  by (simp add: unique_def distinct_unique_acc)

lemma str_nat_nonempty: "str_nat n \<noteq> []"
  by (subst str_nat.simps) simp

lemma str_nat_inj: "str_nat n = str_nat m \<Longrightarrow> n = m"
proof (induction n arbitrary: m rule: str_nat.induct)
  case (1 n)
  show ?case
  proof (cases "n < 10")
    case True
    then have n: "str_nat n = [digit_char n]"
      by (simp add: str_nat.simps [of n])
    have "m < 10"
    proof (rule ccontr)
      assume "\<not> m < 10"
      then have "str_nat m = str_nat (m div 10) @ [digit_char (m mod 10)]"
        by (simp add: str_nat.simps [of m])
      with n "1.prems" str_nat_nonempty [of "m div 10"] show False
        by (cases "str_nat (m div 10)") auto
    qed
    then have "str_nat m = [digit_char m]"
      by (simp add: str_nat.simps [of m])
    with n "1.prems" have "digit_char n = digit_char m"
      by simp
    with True \<open>m < 10\<close> show ?thesis
      by (rule digit_char_inj)
  next
    case False
    then have n: "str_nat n = str_nat (n div 10) @ [digit_char (n mod 10)]"
      by (simp add: str_nat.simps [of n])
    have m10: "\<not> m < 10"
    proof
      assume "m < 10"
      then have "str_nat m = [digit_char m]"
        by (simp add: str_nat.simps [of m])
      with n "1.prems" str_nat_nonempty [of "n div 10"] show False
        by (cases "str_nat (n div 10)") auto
    qed
    then have m: "str_nat m = str_nat (m div 10) @ [digit_char (m mod 10)]"
      by (simp add: str_nat.simps [of m])
    from n m "1.prems" have e: "str_nat (n div 10) = str_nat (m div 10)"
      and d: "digit_char (n mod 10) = digit_char (m mod 10)"
      by simp_all
    from "1.IH" [OF False e] have "n div 10 = m div 10" .
    moreover have "n mod 10 = m mod 10"
      using d by (intro digit_char_inj) simp_all
    ultimately show ?thesis
      by (metis div_mult_mod_eq)
  qed
qed

lemma distinct_ftr_codes: "distinct (map (\<lambda>i. prefix @ str_nat i) [0..<n])"
  by (auto simp: distinct_map inj_on_def dest: str_nat_inj)

lemma col_to_features_eq:
  "col_to_features text_col prefix =
     zip (map (\<lambda>i. prefix @ str_nat i) [0..<length (unique text_col)]) (unique text_col)"
proof -
  have "map fst (zip (map (\<lambda>i. prefix @ str_nat i) [0..<length (unique text_col)]) (unique text_col)) =
      map (\<lambda>i. prefix @ str_nat i) [0..<length (unique text_col)]"
    by (rule map_fst_zip) simp
  then have "distinct (map fst (zip (map (\<lambda>i. prefix @ str_nat i) [0..<length (unique text_col)]) (unique text_col)))"
    by (simp only: distinct_ftr_codes)
  then show ?thesis
    unfolding col_to_features_def Let_def by (rule py_dict_distinct)
qed

lemma inverse_dict_eq:
  "py_dict (map (\<lambda>(v, k). (k, v)) (col_to_features text_col prefix)) =
     zip (unique text_col) (map (\<lambda>i. prefix @ str_nat i) [0..<length (unique text_col)])"
proof -
  let ?ks = "map (\<lambda>i. prefix @ str_nat i) [0..<length (unique text_col)]"
  have len: "length ?ks = length (unique text_col)"
    by simp
  have sw: "map (\<lambda>(v, k). (k, v)) (zip ?ks (unique text_col)) = zip (unique text_col) ?ks"
    using len by (intro nth_equalityI) simp_all
  have "map fst (zip (unique text_col) ?ks) = unique text_col"
    by (rule map_fst_zip) simp
  then have "distinct (map fst (zip (unique text_col) ?ks))"
    by (simp only: distinct_unique)
  then have "py_dict (zip (unique text_col) ?ks) = zip (unique text_col) ?ks"
    by (rule py_dict_distinct)
  then show ?thesis
    by (simp only: col_to_features_eq sw)
qed

lemma zip_nth_mem: "j < length xs \<Longrightarrow> length ys = length xs \<Longrightarrow> (xs ! j, ys ! j) \<in> set (zip xs ys)"
proof -
  assume j: "j < length xs" and l: "length ys = length xs"
  then have "j < length (zip xs ys)"
    by simp
  then have "zip xs ys ! j \<in> set (zip xs ys)"
    by (rule nth_mem)
  moreover have "zip xs ys ! j = (xs ! j, ys ! j)"
    using j l by (intro nth_zip) simp_all
  ultimately show ?thesis
    by (simp only:)
qed

lemma map_of_zip_nth:
  assumes "distinct xs" "length ys = length xs" "j < length xs"
  shows "map_of (zip xs ys) (xs ! j) = Some (ys ! j)"
proof -
  have "map fst (zip xs ys) = xs"
    using assms(2) by (intro map_fst_zip) simp
  then have "distinct (map fst (zip xs ys))"
    using assms(1) by (simp only:)
  moreover have "(xs ! j, ys ! j) \<in> set (zip xs ys)"
    using assms(3,2) by (rule zip_nth_mem)
  ultimately show ?thesis
    by (simp only: map_of_eq_Some_iff)
qed

lemma ftr_codes_nth:
  "j < n \<Longrightarrow> map (\<lambda>i. prefix @ str_nat i) [0..<n] ! j = prefix @ str_nat j"
  by simp

lemma codec_lookup:
  assumes "t \<in> set text_col"
  shows "\<exists>j < length (unique text_col).
     unique text_col ! j = t \<and>
     dict_get (py_dict (map (\<lambda>(v, k). (k, v)) (col_to_features text_col prefix))) t =
       Some (prefix @ str_nat j) \<and>
     dict_get (col_to_features text_col prefix) (prefix @ str_nat j) = Some t"
proof -
  let ?u = "unique text_col"
  let ?ks = "map (\<lambda>i. prefix @ str_nat i) [0..<length ?u]"
  from assms have "t \<in> set ?u"
    by (simp only: set_unique)
  then obtain j where j: "j < length ?u" "?u ! j = t"
    unfolding in_set_conv_nth by blast
  have len: "length ?ks = length ?u"
    by simp
  have kj: "?ks ! j = prefix @ str_nat j"
    using j(1) by (rule ftr_codes_nth)
  have "map_of (zip ?u ?ks) (?u ! j) = Some (?ks ! j)"
    using distinct_unique len j(1) by (rule map_of_zip_nth)
  then have a: "map_of (zip ?u ?ks) t = Some (prefix @ str_nat j)"
    by (simp only: j(2) kj)
  have jk: "j < length ?ks"
    using j(1) by simp
  have "map_of (zip ?ks ?u) (?ks ! j) = Some (?u ! j)"
    using distinct_ftr_codes len [symmetric] jk by (rule map_of_zip_nth)
  then have b: "map_of (zip ?ks ?u) (prefix @ str_nat j) = Some t"
    by (simp only: j(2) kj)
  have A: "dict_get (py_dict (map (\<lambda>(v, k). (k, v)) (col_to_features text_col prefix))) t =
       Some (prefix @ str_nat j)"
    unfolding dict_get_def by (simp only: inverse_dict_eq a)
  have B: "dict_get (col_to_features text_col prefix) (prefix @ str_nat j) = Some t"
    unfolding dict_get_def by (simp only: col_to_features_eq b)
  from j A B show ?thesis
    by blast
qed

lemma code_dict_keys:
  "map fst (col_to_features text_col prefix) =
     map (\<lambda>i. prefix @ str_nat i) [0..<length (col_to_features text_col prefix)]"
  "map snd (col_to_features text_col prefix) = unique text_col"
  by (simp_all add: col_to_features_eq map_fst_zip map_snd_zip)

lemma code_dict_bij:
  "bij_betw (\<lambda>tok. the (dict_get (col_to_features text_col prefix) tok))
     (set (map fst (col_to_features text_col prefix))) (set text_col)"
proof -
  let ?u = "unique text_col"
  let ?ks = "map (\<lambda>i. prefix @ str_nat i) [0..<length ?u]"
  let ?f = "\<lambda>tok. the (map_of (zip ?ks ?u) tok)"
  have len: "length ?u = length ?ks"
    by simp
  have f_nth: "?f (?ks ! j) = ?u ! j" if "j < length ?ks" for j
    using map_of_zip_nth [OF distinct_ftr_codes len that] by (simp only: option.sel)
  have keys: "set (map fst (zip ?ks ?u)) = set ?ks"
    using len by (simp only: map_fst_zip)
  have inj: "inj_on ?f (set ?ks)"
  proof (rule inj_onI)
    fix a b assume "a \<in> set ?ks" "b \<in> set ?ks" and e: "?f a = ?f b"
    then obtain i j where i: "i < length ?ks" "a = ?ks ! i" and j: "j < length ?ks" "b = ?ks ! j"
      unfolding in_set_conv_nth by blast
    from e have "?u ! i = ?u ! j"
      unfolding i(2) j(2) by (simp only: f_nth [OF i(1)] f_nth [OF j(1)])
    moreover have "i < length ?u" "j < length ?u"
      using i(1) j(1) by simp_all
    ultimately have "i = j"
      using distinct_unique [of text_col] by (simp only: nth_eq_iff_index_eq)
    then show "a = b"
      by (simp only: i(2) j(2))
  qed
  have img: "?f ` set ?ks = set text_col"
  proof (rule set_eqI, rule iffI)
    fix t
    assume "t \<in> ?f ` set ?ks"
    then obtain a where a: "a \<in> set ?ks" "t = ?f a"
      by (rule imageE)
    from a(1) obtain j where j: "j < length ?ks" "a = ?ks ! j"
      unfolding in_set_conv_nth by blast
    have "t = ?u ! j"
      unfolding a(2) j(2) by (rule f_nth [OF j(1)])
    moreover have "j < length ?u"
      using j(1) by simp
    ultimately have "t \<in> set ?u"
      by (simp only: nth_mem)
    then show "t \<in> set text_col"
      by (simp only: set_unique)
  next
    fix t
    assume "t \<in> set text_col"
    then have "t \<in> set ?u"
      by (simp only: set_unique)
    then obtain j where j: "j < length ?u" "?u ! j = t"
      unfolding in_set_conv_nth by blast
    have jk: "j < length ?ks"
      using j(1) by simp
    then have "?ks ! j \<in> set ?ks"
      by (rule nth_mem)
    moreover have "t = ?f (?ks ! j)"
      using f_nth [OF jk] j(2) by (simp only:)
    ultimately show "t \<in> ?f ` set ?ks"
      by (rule image_eqI [rotated])
  qed
  show ?thesis
    unfolding col_to_features_eq dict_get_def keys bij_betw_def
    using inj img by (rule conjI)
qed

lemma df_to_features_nth:
  "length (df_to_features qcut df num_col buckets) = length df"
  "i < length df \<Longrightarrow> df_to_features qcut df num_col buckets ! i =
     (s_pat_key (df ! i),
      s_text (df ! i) @ (case num_col of
                           None \<Rightarrow> []
                         | Some nc \<Rightarrow> '' q'' @ qcut buckets (map (\<lambda>r. (s_text r, nc r)) df) i))"
  by (simp_all add: df_to_features_def split: option.splits)

lemma condense_features_nth:
  "length (condense_features feats code_dict) = length feats"
  "i < length feats \<Longrightarrow> snd (condense_features feats code_dict ! i) =
     dict_get (py_dict (map (\<lambda>(v, k). (k, v)) code_dict)) (snd (feats ! i))"
  by (simp_all add: condense_features_def Let_def split_def)

text \<open>
  Claim C6. For a table passed through \<open>df_to_features\<close>, \<open>col_to_features\<close> and
  \<open>condense_features\<close>: the keys of the token dictionary are the prefix followed by
  the ordinals \<open>0, 1, \<dots>\<close>, keys and values are distinct, the values are the distinct
  (bucket-augmented) texts of the table, and lookup is a bijection from the tokens onto
  those texts; every row gets a token, and looking that token up gives back the row's
  text, which is the row's original text followed by the bucket suffix (by nothing when
  no numeric column is configured).
\<close>

theorem feature_codec_round_trip:
  assumes "feats = df_to_features qcut df num_col buckets"
    and "code_dict = col_to_features (map snd feats) prefix"
    and "out = condense_features feats code_dict"
  shows "map fst code_dict = map (\<lambda>i. prefix @ str_nat i) [0..<length code_dict] \<and>
     distinct (map fst code_dict) \<and> distinct (map snd code_dict) \<and>
     set (map snd code_dict) = set (map snd feats) \<and>
     bij_betw (\<lambda>tok. the (dict_get code_dict tok)) (set (map fst code_dict)) (set (map snd feats)) \<and>
     length out = length df \<and>
     (\<forall>i < length df. \<exists>tok. snd (out ! i) = Some tok \<and> tok \<in> set (map fst code_dict) \<and>
        dict_get code_dict tok = Some (snd (feats ! i)) \<and>
        snd (feats ! i) = s_text (df ! i) @
          (case num_col of
             None \<Rightarrow> []
           | Some nc \<Rightarrow> '' q'' @ qcut buckets (map (\<lambda>r. (s_text r, nc r)) df) i))"
proof -
  let ?texts = "map snd feats"
  have keys: "map fst code_dict = map (\<lambda>i. prefix @ str_nat i) [0..<length code_dict]"
    unfolding assms(2) by (rule code_dict_keys(1))
  have vals: "map snd code_dict = unique ?texts"
    unfolding assms(2) by (rule code_dict_keys(2))
  have dk: "distinct (map fst code_dict)"
    by (subst keys) (rule distinct_ftr_codes)
  have dv: "distinct (map snd code_dict)"
    unfolding vals by (rule distinct_unique)
  have sv: "set (map snd code_dict) = set ?texts"
    unfolding vals by (rule set_unique)
  have bij: "bij_betw (\<lambda>tok. the (dict_get code_dict tok)) (set (map fst code_dict)) (set ?texts)"
    unfolding assms(2) by (rule code_dict_bij)
  have lf: "length feats = length df"
    unfolding assms(1) by (rule df_to_features_nth(1))
  have lo: "length out = length df"
    unfolding assms(3) using lf by (simp only: condense_features_nth(1))
  have rows: "\<exists>tok. snd (out ! i) = Some tok \<and> tok \<in> set (map fst code_dict) \<and>
        dict_get code_dict tok = Some (snd (feats ! i)) \<and>
        snd (feats ! i) = s_text (df ! i) @
          (case num_col of
             None \<Rightarrow> []
           | Some nc \<Rightarrow> '' q'' @ qcut buckets (map (\<lambda>r. (s_text r, nc r)) df) i)"
    if i: "i < length df" for i
  proof -
    have fi: "i < length feats"
      using i lf by simp
    then have "snd (feats ! i) \<in> set ?texts"
      by simp
    from codec_lookup [OF this, of prefix]
    obtain j where j: "j < length (unique ?texts)"
      and inv: "dict_get (py_dict (map (\<lambda>(v, k). (k, v)) code_dict)) (snd (feats ! i)) =
          Some (prefix @ str_nat j)"
      and fwd: "dict_get code_dict (prefix @ str_nat j) = Some (snd (feats ! i))"
      unfolding assms(2) by blast
    have "snd (out ! i) = Some (prefix @ str_nat j)"
      unfolding assms(3) using condense_features_nth(2) [OF fi, of code_dict] inv
      by (simp only:)
    moreover have "length code_dict = length (unique ?texts)"
      using vals by (metis length_map)
    then have "prefix @ str_nat j \<in> set (map fst code_dict)"
      using j by (subst keys) simp
    moreover have "snd (feats ! i) = s_text (df ! i) @
          (case num_col of
             None \<Rightarrow> []
           | Some nc \<Rightarrow> '' q'' @ qcut buckets (map (\<lambda>r. (s_text r, nc r)) df) i)"
      unfolding assms(1) using df_to_features_nth(2) [OF i, of qcut num_col buckets]
      by (simp only: snd_conv)
    ultimately show ?thesis
      using fwd by blast
  qed
  from keys dk dv sv bij lo rows show ?thesis
    by blast
qed

lemma codec_example:
  "df_to_features (\<lambda>b col i. if snd (col ! i) < 5 then ''0.0'' else ''1.0'')
      [\<lparr>s_pat_key = 1, s_text = ''glucose'', s_num = 3\<rparr>,
       \<lparr>s_pat_key = 1, s_text = ''sodium'', s_num = 7\<rparr>,
       \<lparr>s_pat_key = 2, s_text = ''glucose'', s_num = 9\<rparr>,
       \<lparr>s_pat_key = 3, s_text = ''glucose'', s_num = 1\<rparr>] (Some s_num) 5 =
     [(1, ''glucose q0.0''), (1, ''sodium q1.0''), (2, ''glucose q1.0''), (3, ''glucose q0.0'')]"
  "col_to_features (map snd [(1::int, ''glucose q0.0''), (1, ''sodium q1.0''), (2, ''glucose q1.0''),
      (3, ''glucose q0.0'')]) ''vtl'' =
     [(''vtl0'', ''glucose q0.0''), (''vtl1'', ''sodium q1.0''), (''vtl2'', ''glucose q1.0'')]"
  "condense_features [(1, ''glucose q0.0''), (1, ''sodium q1.0''), (2, ''glucose q1.0''),
      (3, ''glucose q0.0'')]
      [(''vtl0'', ''glucose q0.0''), (''vtl1'', ''sodium q1.0''), (''vtl2'', ''glucose q1.0'')] =
     [(1, Some ''vtl0''), (1, Some ''vtl1''), (2, Some ''vtl2''), (3, Some ''vtl0'')]"
  by (simp_all add: df_to_features_def col_to_features_def condense_features_def unique_def
      py_dict_def dict_get_def str_nat.simps digit_char_def upt_rec [of 0] upt_rec [of 1]
      upt_rec [of 2] upt_rec [of 3] upt_rec [of 4])

theorem feature_codec_round_trip_witness:
  "col_to_features (map snd (df_to_features (\<lambda>b col i. if snd (col ! i) < 5 then ''0.0'' else ''1.0'')
      [\<lparr>s_pat_key = 1, s_text = ''glucose'', s_num = 3\<rparr>,
       \<lparr>s_pat_key = 1, s_text = ''sodium'', s_num = 7\<rparr>,
       \<lparr>s_pat_key = 2, s_text = ''glucose'', s_num = 9\<rparr>,
       \<lparr>s_pat_key = 3, s_text = ''glucose'', s_num = 1\<rparr>] (Some s_num) 5)) ''vtl'' =
     [(''vtl0'', ''glucose q0.0''), (''vtl1'', ''sodium q1.0''), (''vtl2'', ''glucose q1.0'')] \<and>
   condense_features [(1, ''glucose q0.0''), (1, ''sodium q1.0''), (2, ''glucose q1.0''),
      (3, ''glucose q0.0'')]
      [(''vtl0'', ''glucose q0.0''), (''vtl1'', ''sodium q1.0''), (''vtl2'', ''glucose q1.0'')] =
     [(1, Some ''vtl0''), (1, Some ''vtl1''), (2, Some ''vtl2''), (3, Some ''vtl0'')] \<and>
   bij_betw (\<lambda>tok. the (dict_get
        [(''vtl0'', ''glucose q0.0''), (''vtl1'', ''sodium q1.0''), (''vtl2'', ''glucose q1.0'')] tok))
     (set [''vtl0'', ''vtl1'', ''vtl2''])
     (set [''glucose q0.0'', ''sodium q1.0'', ''glucose q1.0'', ''glucose q0.0'']) \<and>
   dict_get [(''vtl0'', ''glucose q0.0''), (''vtl1'', ''sodium q1.0''), (''vtl2'', ''glucose q1.0'')]
     ''vtl0'' = Some (''glucose'' @ '' q0.0'')"
proof -
  note e = codec_example
  from feature_codec_round_trip [OF refl refl refl,
      of "\<lambda>b col i. if snd (col ! i) < 5 then ''0.0'' else ''1.0''"
         "[\<lparr>s_pat_key = 1, s_text = ''glucose'', s_num = 3\<rparr>,
           \<lparr>s_pat_key = 1, s_text = ''sodium'', s_num = 7\<rparr>,
           \<lparr>s_pat_key = 2, s_text = ''glucose'', s_num = 9\<rparr>,
           \<lparr>s_pat_key = 3, s_text = ''glucose'', s_num = 1\<rparr>]" "Some s_num" 5 "''vtl''"]
  have "bij_betw (\<lambda>tok. the (dict_get
        [(''vtl0'', ''glucose q0.0''), (''vtl1'', ''sodium q1.0''), (''vtl2'', ''glucose q1.0'')] tok))
     (set (map fst [(''vtl0'', ''glucose q0.0''), (''vtl1'', ''sodium q1.0''), (''vtl2'', ''glucose q1.0'')]))
     (set (map snd [(1::int, ''glucose q0.0''), (1, ''sodium q1.0''), (2, ''glucose q1.0''),
      (3, ''glucose q0.0'')]))"
    unfolding e by (elim conjE)
  then have "bij_betw (\<lambda>tok. the (dict_get
        [(''vtl0'', ''glucose q0.0''), (''vtl1'', ''sodium q1.0''), (''vtl2'', ''glucose q1.0'')] tok))
     (set [''vtl0'', ''vtl1'', ''vtl2''])
     (set [''glucose q0.0'', ''sodium q1.0'', ''glucose q1.0'', ''glucose q0.0''])"
    by (simp only: list.map fst_conv snd_conv)
  moreover have "dict_get [(''vtl0'', ''glucose q0.0''), (''vtl1'', ''sodium q1.0''), (''vtl2'', ''glucose q1.0'')]
     ''vtl0'' = Some (''glucose'' @ '' q0.0'')"
    by (simp add: dict_get_def)
  ultimately show ?thesis
    using e by (simp only: simp_thms)
qed

subsection \<open>\<open>get_times\<close>\<close>

lemma those_map_Some:
  "(\<And>x. x \<in> set xs \<Longrightarrow> f x \<noteq> None) \<Longrightarrow> those (map f xs) = Some (map (\<lambda>x. the (f x)) xs)"
  by (induction xs) (auto split: option.splits)

lemma uint_word32_of_int: "uint (word_of_int s :: 32 word) = s mod 2 ^ 32"
  by (simp add: uint_word_of_int take_bit_eq_mod)

lemma uint_word32_scaled:
  "uint (word_of_int s * word_of_int k :: 32 word) = (k * (s mod 2 ^ 32)) mod 2 ^ 32"
proof -
  have "(word_of_int s * word_of_int k :: 32 word) = word_of_int (k * s)"
    by (simp add: mult.commute)
  then have "uint (word_of_int s * word_of_int k :: 32 word) = (k * s) mod 2 ^ 32"
    by (simp only: uint_word32_of_int)
  then show ?thesis
    by (simp only: mod_mult_right_eq)
qed

lemma uint_hours: "uint (word_of_int s * 24 :: 32 word) = (24 * (s mod 2 ^ 32)) mod 2 ^ 32"
  using uint_word32_scaled [of s 24] by simp

lemma uint_minutes: "uint (word_of_int s * 24 * 60 :: 32 word) = (1440 * (s mod 2 ^ 32)) mod 2 ^ 32"
proof -
  have "(word_of_int s * 24 * 60 :: 32 word) = word_of_int s * word_of_int 1440"
    by simp
  then show ?thesis
    by (simp only: uint_word32_scaled)
qed

lemma get_times_rows:
  assumes "\<And>r. r \<in> set df \<Longrightarrow> dict (pat_key r) \<noteq> None"
  shows "get_times th tm df dict (Some dc) time_col =
     Inr (map (\<lambda>r. mk_times_row r
                  (U32 (word_of_int (the (dict (pat_key r)) + dc r)))
                  (U32 (word_of_int (the (dict (pat_key r)) + dc r) * 24 +
                        (case time_col of None \<Rightarrow> 0 | Some tc \<Rightarrow> th (tc r))))
                  (U32 (word_of_int (the (dict (pat_key r)) + dc r) * 24 * 60 +
                        (case time_col of None \<Rightarrow> 0 | Some tc \<Rightarrow> tm (tc r))))) df)"
proof -
  have t: "those (map (\<lambda>r. dict (pat_key r)) df) = Some (map (\<lambda>r. the (dict (pat_key r))) df)"
    using assms by (rule those_map_Some)
  show ?thesis
    unfolding get_times_def t
    by (cases time_col)
       (simp_all add: Let_def zip_map1 zip_map2 map2_map_map zip_same_conv_map o_def split_def)
qed

text \<open>
  Claim C10, as the code has it. With a day column, with or without a time column, for
  every row whose entity is in the dictionary: the stored day value is the sum \<open>s\<close> of
  the entity's index offset and the record's day offset reduced modulo \<open>2 ^ 32\<close> (no
  error is raised, and a negative sum down to \<open>- 2 ^ 32\<close> is stored as
  \<open>2 ^ 32 + s\<close>); the hour and minute values are that value times 24 and times 1440
  computed in \<open>uint32\<close>, that is, reduced modulo \<open>2 ^ 32\<close> again, plus the hours
  and minutes of the time column when there is one, in \<open>uint32\<close> as well.
\<close>

theorem get_times_uint32_wraps:
  assumes "\<forall>r \<in> set df. dict (pat_key r) \<noteq> None"
    and "i < length df"
    and "s = the (dict (pat_key (df ! i))) + dc (df ! i)"
  shows "\<exists>out. get_times th tm df dict (Some dc) time_col = Inr out \<and> length out = length df \<and>
     dfi (out ! i) = U32 (word_of_int s) \<and>
     hfi (out ! i) = U32 (word_of_int s * 24 +
        (case time_col of None \<Rightarrow> 0 | Some tc \<Rightarrow> th (tc (df ! i)))) \<and>
     mfi (out ! i) = U32 (word_of_int s * 24 * 60 +
        (case time_col of None \<Rightarrow> 0 | Some tc \<Rightarrow> tm (tc (df ! i)))) \<and>
     uint (word_of_int s :: 32 word) = s mod 2 ^ 32 \<and>
     uint (word_of_int s * 24 :: 32 word) = (24 * (s mod 2 ^ 32)) mod 2 ^ 32 \<and>
     uint (word_of_int s * 24 * 60 :: 32 word) = (1440 * (s mod 2 ^ 32)) mod 2 ^ 32 \<and>
     (s < 0 \<and> - (2 ^ 32) \<le> s \<longrightarrow> s mod 2 ^ 32 = 2 ^ 32 + s)"
proof -
  let ?h = "\<lambda>r. case time_col of None \<Rightarrow> (0 :: 32 word) | Some tc \<Rightarrow> th (tc r)"
  let ?m = "\<lambda>r. case time_col of None \<Rightarrow> (0 :: 32 word) | Some tc \<Rightarrow> tm (tc r)"
  let ?w = "word_of_int s :: 32 word"
  let ?out = "map (\<lambda>r. mk_times_row r
                  (U32 (word_of_int (the (dict (pat_key r)) + dc r)))
                  (U32 (word_of_int (the (dict (pat_key r)) + dc r) * 24 + ?h r))
                  (U32 (word_of_int (the (dict (pat_key r)) + dc r) * 24 * 60 + ?m r))) df"
  have rows: "get_times th tm df dict (Some dc) time_col = Inr ?out"
    using assms(1) by (intro get_times_rows) blast
  have wrap: "s mod 2 ^ 32 = 2 ^ 32 + s" if "s < 0" "- (2 ^ 32) \<le> s"
  proof -
    have "s mod 2 ^ 32 = (s + 2 ^ 32) mod 2 ^ 32" by simp
    also have "\<dots> = s + 2 ^ 32" using that by (intro mod_pos_pos_trivial) auto
    finally show ?thesis by simp
  qed
  have nth: "?out ! i = mk_times_row (df ! i) (U32 ?w) (U32 (?w * 24 + ?h (df ! i)))
      (U32 (?w * 24 * 60 + ?m (df ! i)))"
    unfolding assms(3) using assms(2) by (rule nth_map)
  have "length ?out = length df"
    by (rule length_map)
  moreover have "dfi (?out ! i) = U32 ?w" "hfi (?out ! i) = U32 (?w * 24 + ?h (df ! i))"
      "mfi (?out ! i) = U32 (?w * 24 * 60 + ?m (df ! i))"
    unfolding nth by (simp_all only: mk_times_row_def times_row.simps)
  moreover have "s < 0 \<and> - (2 ^ 32) \<le> s \<longrightarrow> s mod 2 ^ 32 = 2 ^ 32 + s"
    using wrap by blast
  ultimately show ?thesis
    using rows uint_word32_of_int [of s] uint_hours [of s] uint_minutes [of s]
    by blast
qed

theorem get_times_uint32_wraps_witness:
  "\<exists>out. get_times (\<lambda>t. 12) (\<lambda>t. 720) [\<lparr>pat_key = 1, ftr = ''vtl0'', day = - 1, tod = ''12:00:00''\<rparr>]
       [1 \<mapsto> 0] (Some day) (Some tod) = Inr out \<and> length out = 1 \<and>
     dfi (out ! 0) = U32 (word_of_int (- 1)) \<and>
     hfi (out ! 0) = U32 (word_of_int (- 1) * 24 + 12) \<and>
     mfi (out ! 0) = U32 (word_of_int (- 1) * 24 * 60 + 720) \<and>
     uint (word_of_int (- 1) :: 32 word) = 4294967295 \<and>
     uint (word_of_int (- 1) * 24 :: 32 word) = 4294967272 \<and>
     uint (word_of_int (- 1) * 24 * 60 :: 32 word) = 4294965856"
  using get_times_uint32_wraps [of "[\<lparr>pat_key = 1, ftr = ''vtl0'', day = - 1, tod = ''12:00:00''\<rparr>]"
      "[1 \<mapsto> 0]" 0 "- 1" day "\<lambda>t. 12" "\<lambda>t. 720" "Some tod"]
  by simp


text \<open>
  Claim C10, as stated, fails: for the sum \<open>- 1\<close> the stored day is
  \<open>4294967295\<close>, and the stored hour and minute values are not 24 and 1440 times
  that number.
\<close>

theorem hours_not_24_times_wrapped_day:
  "get_times (\<lambda>t. 0) (\<lambda>t. 0) [\<lparr>pat_key = 1, ftr = ''vtl0'', day = - 1, tod = ''12:00:00''\<rparr>]
       [1 \<mapsto> 0] (Some day) None =
     Inr [\<lparr>t_pat_key = 1, t_ftr = ''vtl0'', dfi = U32 4294967295, hfi = U32 4294967272,
           mfi = U32 4294965856\<rparr>] \<and>
   unat (4294967272 :: 32 word) \<noteq> 24 * unat (4294967295 :: 32 word) \<and>
   unat (4294965856 :: 32 word) \<noteq> 1440 * unat (4294967295 :: 32 word)"
  by (simp add: get_times_def mk_times_row_def)

subsection \<open>Percentiles\<close>











subsection \<open>Seeds and the order of the stages\<close>

lemma collect_map_Inr: "collect (map (\<lambda>x. Inr (f x)) xs) = Inr (map f xs)"
  by (induction xs) simp_all

lemma collect_Inr_length: "collect rs = Inr xs \<Longrightarrow> length xs = length rs"
proof (induction rs arbitrary: xs)
  case Nil
  then show ?case by simp
next
  case (Cons r rs)
  then show ?case
    by (cases r) (auto split: sum.splits)
qed


lemma length_randint: "length (fst (randint draw low high n g)) = n"
  by (induction n arbitrary: g) (simp_all add: split_def Let_def)

lemma derive_seeds_seeded:
  "derive_seeds e (Some s) n g =
     (if 0 \<le> s \<and> s < 2 ^ 32 then Inr (randint (rng_draw e) 0 1000000 n (rng_seed e (SeedInt s)))
      else Inl ValueError)"
  by (simp add: derive_seeds_def np_random_seed_def seed_ok_def)

lemma length_derive_seeds:
  assumes "derive_seeds e seed n g = Inr (seeds, g1)"
  shows "length seeds = n"
proof -
  from assms obtain st where "randint (rng_draw e) 0 1000000 n st = (seeds, g1)"
    by (auto simp add: derive_seeds_def Let_def split: sum.splits)
  then have "seeds = fst (randint (rng_draw e) 0 1000000 n st)"
    by simp
  then show ?thesis
    by (simp only: length_randint)
qed

lemma roc_seeds_seeded:
  "roc_seeds e s n =
     (if 0 \<le> s \<and> s < 2 ^ 32 then Inr (fst (randint (rng_draw e) 1 10000000 n (rng_seed e (SeedInt s))))
      else Inl ValueError)"
  by (simp add: roc_seeds_def np_random_seed_def seed_ok_def)

lemma length_roc_seeds:
  assumes "roc_seeds e seed n = Inr seeds"
  shows "length seeds = n"
proof -
  from assms obtain st where "seeds = fst (randint (rng_draw e) 1 10000000 n st)"
    by (auto simp add: roc_seeds_def split: sum.splits)
  then show ?thesis
    by (simp only: length_randint)
qed

text \<open>With the name \<open>tools\<close> unbound every entry point raises \<open>NameError\<close>.\<close>

lemma boot_cis_unbound:
  "boot_cis e None targets guesses sample_by n a method interp average_by weighted mcnemar seed g =
     ([], Inl NameError)"
  by (simp add: boot_cis_def)

lemma boot_roc_unbound:
  "boot_roc e None roc_curve targets scores sample_by n seed =
     (if 0 \<le> seed \<and> seed < 2 ^ 32 then Inl NameError else Inl ValueError)"
  by (simp add: boot_roc_def roc_seeds_seeded Let_def)


lemma resample_unbound:
  "resample None targets guesses sample_by average_by weighted seeds = ([], Inl NameError)"
  by (simp add: resample_def)

text \<open>With the name bound: the calls a resampling makes.\<close>

lemma resample_trace:
  "\<exists>k. k \<le> length seeds \<and>
     fst (resample (Some m) targets guesses sample_by average_by weighted seeds) =
       map BootSample seeds @ replicate k ClfMetrics"
proof -
  let ?rs = "map (\<lambda>boot.
                        case np_take targets boot of
                          Inl err \<Rightarrow> Inl err
                        | Inr t \<Rightarrow>
                            (case np_take guesses boot of
                               Inl err \<Rightarrow> Inl err
                             | Inr g \<Rightarrow>
                                 (case average_by of
                                    None \<Rightarrow> Inr (t, g, PlainCall)
                                  | Some avg \<Rightarrow>
                                      (case np_take avg boot of
                                         Inl err \<Rightarrow> Inl err
                                       | Inr k \<Rightarrow> Inr (t, g, BootCall (Some k) weighted)))))
              (boots_of m (boot_input targets sample_by seeds))"
  show ?thesis
  proof (cases "collect ?rs")
    case (Inl err)
    then have "fst (resample (Some m) targets guesses sample_by average_by weighted seeds) =
        map BootSample seeds @ replicate 0 ClfMetrics"
      by (simp add: resample_def Let_def)
    then show ?thesis by blast
  next
    case (Inr calls)
    from collect_Inr_length [OF Inr] have "length calls = length seeds"
      by (simp add: boots_of_def boot_input_def)
    moreover have "fst (resample (Some m) targets guesses sample_by average_by weighted seeds) =
        map BootSample seeds @ replicate (length calls) ClfMetrics"
      using Inr by (simp add: resample_def Let_def)
    ultimately show ?thesis by auto
  qed
qed





lemma five: "(5::nat) = Suc (Suc (Suc (Suc (Suc 0))))"
  by simp

lemma demo_seeds: "derive_seeds demo_env (Some 0) 5 g = Inr ([0, 1, 2, 3, 4], 5)"
  unfolding five by (simp add: demo_env_def derive_seeds_def np_random_seed_def seed_ok_def)



lemma demo_roc_seeds: "roc_seeds demo_env 0 5 = Inr [1, 2, 3, 4, 5]"
  unfolding five by (simp add: demo_env_def roc_seeds_def np_random_seed_def seed_ok_def)







lemma boot_cis_trace:
  assumes ds: "derive_seeds e seed n g = Inr (seeds, g1)"
  shows "\<exists>j. fst (boot_cis e (Some m) targets guesses sample_by n a meth interp average_by weighted
              mcnemar seed g) =
     ClfMetrics # fst (resample (Some m) targets guesses sample_by average_by weighted seeds) @
       replicate j ClfMetrics"
proof -
  obtain ev boot where r: "resample (Some m) targets guesses sample_by average_by weighted seeds = (ev, boot)"
    by (cases "resample (Some m) targets guesses sample_by average_by weighted seeds")
  have z: "ClfMetrics # ev = ClfMetrics # ev @ replicate 0 ClfMetrics"
    by simp
  show ?thesis
  proof (cases boot)
    case (Inl err)
    then have "fst (boot_cis e (Some m) targets guesses sample_by n a meth interp average_by weighted
              mcnemar seed g) = ClfMetrics # ev @ replicate 0 ClfMetrics"
      by (simp add: boot_cis_def Let_def ds r)
    then show ?thesis unfolding r fst_conv by blast
  next
    case (Inr scores)
    show ?thesis
    proof (cases "jackknife_metrics (Some m)
        (length (clf_metrics m targets guesses (PointCall average_by weighted mcnemar))) targets guesses")
      case (Inl err)
      then have "fst (boot_cis e (Some m) targets guesses sample_by n a meth interp average_by weighted
              mcnemar seed g) = ClfMetrics # ev @ replicate 0 ClfMetrics"
        using Inr by (simp add: boot_cis_def Let_def ds r split_def)
      then show ?thesis unfolding r fst_conv by blast
    next
      case jk: (Inr j)
      have "fst (boot_cis e (Some m) targets guesses sample_by n a meth interp average_by weighted
              mcnemar seed g) = ClfMetrics # ev @ replicate 0 ClfMetrics \<or>
            fst (boot_cis e (Some m) targets guesses sample_by n a meth interp average_by weighted
              mcnemar seed g) = ClfMetrics # ev @ replicate (length (fst j)) ClfMetrics"
        using Inr jk by (simp add: boot_cis_def Let_def ds r split_def)
      then show ?thesis unfolding r fst_conv by blast
    qed
  qed
qed

lemma filter_trace:
  "filter (\<lambda>ev. ev \<noteq> ClfMetrics) (ClfMetrics # (map BootSample seeds @ replicate k ClfMetrics) @ replicate j ClfMetrics) =
     map BootSample seeds"
  by (induction seeds) simp_all

lemma boot_cis_samples:
  assumes ds: "derive_seeds e seed n g = Inr (seeds, g1)"
  shows "filter (\<lambda>ev. ev \<noteq> ClfMetrics)
     (fst (boot_cis e (Some m) targets guesses sample_by n a method interp average_by weighted
              mcnemar seed g)) = map BootSample seeds"
proof -
  from boot_cis_trace [OF ds, where m = m and targets = targets and guesses = guesses
      and sample_by = sample_by and average_by = average_by and weighted = weighted and a = a
      and meth = "method" and interp = interp and mcnemar = mcnemar]
  obtain j where j: "fst (boot_cis e (Some m) targets guesses sample_by n a method interp average_by weighted
              mcnemar seed g) =
     ClfMetrics # fst (resample (Some m) targets guesses sample_by average_by weighted seeds) @
       replicate j ClfMetrics"
    by blast
  from resample_trace [of seeds m targets guesses sample_by average_by weighted]
  obtain k where k: "fst (resample (Some m) targets guesses sample_by average_by weighted seeds) =
       map BootSample seeds @ replicate k ClfMetrics"
    by blast
  show ?thesis
    unfolding j k by (rule filter_trace)
qed

text \<open>
  Claim C3. With a master seed \<open>s\<close>, what the seeding block returns does not depend on
  the state \<open>g\<close> the global generator was in before the call, and neither do the outcome
  and the recorded calls of the constructor, whatever the name \<open>tools\<close> is bound to. A
  master seed in \<open>[0, 2 ^ 32)\<close> is one numpy accepts: then two runs from any two states
  derive the same \<open>n\<close> seeds and build the same inputs of the sampling primitive, and
  with the name bound the calls of the sampling primitive carry exactly these seeds, in
  their order. \<open>boot_roc\<close> takes no generator state at all and draws \<open>n\<close> seeds.
\<close>

theorem seeds_reproducible:
  "derive_seeds e (Some s) n g1 = derive_seeds e (Some s) n g2 \<and>
   boot_cis e tools targets guesses sample_by n a meth interp average_by weighted mcnemar (Some s) g1 =
     boot_cis e tools targets guesses sample_by n a meth interp average_by weighted mcnemar (Some s) g2 \<and>
   (0 \<le> s \<and> s < 2 ^ 32 \<longrightarrow>
      (\<exists>seeds st.
         derive_seeds e (Some s) n g1 = Inr (seeds, st) \<and>
         derive_seeds e (Some s) n g2 = Inr (seeds, st) \<and>
         length seeds = n \<and>
         (tools = Some m \<longrightarrow>
            filter (\<lambda>ev. ev \<noteq> ClfMetrics)
              (fst (boot_cis e tools targets guesses sample_by n a meth interp average_by weighted
                      mcnemar (Some s) g1)) = map BootSample seeds \<and>
            filter (\<lambda>ev. ev \<noteq> ClfMetrics)
              (fst (boot_cis e tools targets guesses sample_by n a meth interp average_by weighted
                      mcnemar (Some s) g2)) = map BootSample seeds)) \<and>
      (\<exists>seeds. roc_seeds e s n = Inr seeds \<and> length seeds = n))"
proof (intro conjI impI)
  show d: "derive_seeds e (Some s) n g1 = derive_seeds e (Some s) n g2"
    by (simp only: derive_seeds_seeded)
  show "boot_cis e tools targets guesses sample_by n a meth interp average_by weighted mcnemar (Some s) g1 =
     boot_cis e tools targets guesses sample_by n a meth interp average_by weighted mcnemar (Some s) g2"
    unfolding boot_cis_def by (simp only: d)
next
  assume v: "0 \<le> s \<and> s < 2 ^ 32"
  obtain seeds st where p: "randint (rng_draw e) 0 1000000 n (rng_seed e (SeedInt s)) = (seeds, st)"
    by (cases "randint (rng_draw e) 0 1000000 n (rng_seed e (SeedInt s))")
  from v p have d1: "derive_seeds e (Some s) n g1 = Inr (seeds, st)"
    and d2: "derive_seeds e (Some s) n g2 = Inr (seeds, st)"
    by (simp_all add: derive_seeds_seeded)
  have "tools = Some m \<longrightarrow>
            filter (\<lambda>ev. ev \<noteq> ClfMetrics)
              (fst (boot_cis e tools targets guesses sample_by n a meth interp average_by weighted
                      mcnemar (Some s) g1)) = map BootSample seeds \<and>
            filter (\<lambda>ev. ev \<noteq> ClfMetrics)
              (fst (boot_cis e tools targets guesses sample_by n a meth interp average_by weighted
                      mcnemar (Some s) g2)) = map BootSample seeds"
    by (simp add: boot_cis_samples [OF d1] boot_cis_samples [OF d2])
  with d1 d2 length_derive_seeds [OF d1]
  show "\<exists>seeds st.
         derive_seeds e (Some s) n g1 = Inr (seeds, st) \<and>
         derive_seeds e (Some s) n g2 = Inr (seeds, st) \<and>
         length seeds = n \<and>
         (tools = Some m \<longrightarrow>
            filter (\<lambda>ev. ev \<noteq> ClfMetrics)
              (fst (boot_cis e tools targets guesses sample_by n a meth interp average_by weighted
                      mcnemar (Some s) g1)) = map BootSample seeds \<and>
            filter (\<lambda>ev. ev \<noteq> ClfMetrics)
              (fst (boot_cis e tools targets guesses sample_by n a meth interp average_by weighted
                      mcnemar (Some s) g2)) = map BootSample seeds)"
    by blast
next
  assume v: "0 \<le> s \<and> s < 2 ^ 32"
  then have r: "roc_seeds e s n = Inr (fst (randint (rng_draw e) 1 10000000 n (rng_seed e (SeedInt s))))"
    by (simp add: roc_seeds_seeded)
  from r length_roc_seeds [OF r] show "\<exists>seeds. roc_seeds e s n = Inr seeds \<and> length seeds = n"
    by blast
qed

theorem seeds_reproducible_witness:
  "(0::int) \<le> 0 \<and> (0::int) < 2 ^ 32 \<and>
   derive_seeds demo_env (Some 0) 5 1 = Inr ([0, 1, 2, 3, 4], 5) \<and>
   derive_seeds demo_env (Some 0) 5 1 = derive_seeds demo_env (Some 0) 5 2 \<and>
   boot_cis demo_env (Some demo_tools) [0, 1, 2, 3, 4] [0, 1, 2, 3, 4] None 5 (1 / 20) ''pct'' Nearest
       None True False (Some 0) 1 =
   boot_cis demo_env (Some demo_tools) [0, 1, 2, 3, 4] [0, 1, 2, 3, 4] None 5 (1 / 20) ''pct'' Nearest
       None True False (Some 0) 2 \<and>
   filter (\<lambda>ev. ev \<noteq> ClfMetrics)
     (fst (boot_cis demo_env (Some demo_tools) [0, 1, 2, 3, 4] [0, 1, 2, 3, 4] None 5 (1 / 20) ''pct''
             Nearest None True False (Some 0) 1)) =
     [BootSample 0, BootSample 1, BootSample 2, BootSample 3, BootSample 4] \<and>
   roc_seeds demo_env 0 5 = Inr [1, 2, 3, 4, 5]"
proof -
  note t = seeds_reproducible [where e = demo_env and s = 0 and n = 5 and ?g1.0 = 1 and ?g2.0 = 2
      and tools = "Some demo_tools" and m = demo_tools and targets = "[0, 1, 2, 3, 4]"
      and guesses = "[0, 1, 2, 3, 4]" and sample_by = None and a = "1 / 20" and meth = "''pct''"
      and interp = Nearest and average_by = None and weighted = True and mcnemar = False]
  have v: "(0::int) \<le> 0 \<and> (0::int) < 2 ^ 32"
    by simp
  have s: "derive_seeds demo_env (Some 0) 5 1 = Inr ([0, 1, 2, 3, 4], 5)"
    by (rule demo_seeds)
  from t [THEN conjunct1] have a: "derive_seeds demo_env (Some 0) 5 1 = derive_seeds demo_env (Some 0) 5 2" .
  from t [THEN conjunct2, THEN conjunct1]
  have b: "boot_cis demo_env (Some demo_tools) [0, 1, 2, 3, 4] [0, 1, 2, 3, 4] None 5 (1 / 20) ''pct'' Nearest
       None True False (Some 0) 1 =
   boot_cis demo_env (Some demo_tools) [0, 1, 2, 3, 4] [0, 1, 2, 3, 4] None 5 (1 / 20) ''pct'' Nearest
       None True False (Some 0) 2" .
  from t [THEN conjunct2, THEN conjunct2, THEN mp, OF v, THEN conjunct1]
  obtain seeds st where d: "derive_seeds demo_env (Some 0) 5 1 = Inr (seeds, st)"
    and f: "Some demo_tools = Some demo_tools \<longrightarrow>
       filter (\<lambda>ev. ev \<noteq> ClfMetrics)
         (fst (boot_cis demo_env (Some demo_tools) [0, 1, 2, 3, 4] [0, 1, 2, 3, 4] None 5 (1 / 20) ''pct''
             Nearest None True False (Some 0) 1)) = map BootSample seeds \<and>
       filter (\<lambda>ev. ev \<noteq> ClfMetrics)
         (fst (boot_cis demo_env (Some demo_tools) [0, 1, 2, 3, 4] [0, 1, 2, 3, 4] None 5 (1 / 20) ''pct''
             Nearest None True False (Some 0) 2)) = map BootSample seeds"
    by blast
  from d s have "seeds = [0, 1, 2, 3, 4]"
    by simp
  with f have c: "filter (\<lambda>ev. ev \<noteq> ClfMetrics)
     (fst (boot_cis demo_env (Some demo_tools) [0, 1, 2, 3, 4] [0, 1, 2, 3, 4] None 5 (1 / 20) ''pct''
             Nearest None True False (Some 0) 1)) =
     [BootSample 0, BootSample 1, BootSample 2, BootSample 3, BootSample 4]"
    by simp
  have r: "roc_seeds demo_env 0 5 = Inr [1, 2, 3, 4, 5]"
    by (rule demo_roc_seeds)
  from v s a b c r show ?thesis
    by (simp only: simp_thms)
qed

subsection \<open>The interval stages\<close>





text \<open>
  The stage is what \<open>boot_cis\<close> returns for method \<open>pct\<close> once the name \<open>tools\<close> is
  bound, the seeds are drawn and the resampling has given a score matrix.
\<close>

lemma boot_cis_pct_stage:
  assumes ds: "derive_seeds e seed n g = Inr (seeds, g1)"
    and "snd (resample (Some tm) targets guesses sample_by average_by weighted seeds) = Inr scores"
    and "method_pct interp scores (length (clf_metrics tm targets guesses (PointCall average_by weighted mcnemar)))
           (fst (percentile_ranks a)) (snd (percentile_ranks a)) = Inr b"
  shows "snd (boot_cis e (Some tm) targets guesses sample_by n a ''pct'' interp average_by weighted
                mcnemar seed g) =
     Inr \<lparr>cis_tab = with_stat (clf_metrics tm targets guesses (PointCall average_by weighted mcnemar)) b,
          scores_out = scores, ranks = None\<rparr>"
proof -
  obtain ev boot where r: "resample (Some tm) targets guesses sample_by average_by weighted seeds = (ev, boot)"
    by (cases "resample (Some tm) targets guesses sample_by average_by weighted seeds")
  with assms(2) have b: "boot = Inr scores" by simp
  show ?thesis
    using assms(3) by (simp add: boot_cis_def Let_def ds r b methods_def split_def)
qed









lemma fix_zero_nonzero: "fix_zero d \<noteq> 0"
  by (simp add: fix_zero_def)

lemma acceleration_finite:
  "acceleration mean col =
     Finite (acc_numer (jack_diffs mean col) / fix_zero (acc_denom (jack_diffs mean col)))"
  by (simp add: acceleration_def Let_def ext_div_def fix_zero_nonzero)

lemma acc_denom_zero_iff:
  "acc_denom devs = 0 \<longleftrightarrow> nansum (map (map_option (\<lambda>d. d ^ 2)) devs) = 0"
  by (simp add: acc_denom_def)

lemma bias_correction_ends:
  "p_less n stat_val col = 0 \<Longrightarrow> norm_ppf ppf (p_less n stat_val col) = MInf \<and>
     bias_correction ppf n stat_val col = Finite 0"
  "p_less n stat_val col = 1 \<Longrightarrow> norm_ppf ppf (p_less n stat_val col) = PInf \<and>
     bias_correction ppf n stat_val col = Finite 0"
  by (simp_all add: bias_correction_def norm_ppf_def fix_inf_def)

text \<open>
  Claim C8. The statement is about lines 172-193 as a function of the score columns they
  are given. When the denominator \<open>6 * (sum of squared deviations) ^ (3/2)\<close> of a
  metric is exactly zero (which is when the sum of squares is zero), \<open>1e-6\<close> is used in
  its place; the divisor is therefore never zero, and the acceleration is the finite
  quotient of numerator and divisor: no infinity or NaN comes out of the division. When
  the fraction of bootstrap scores below the point estimate is 0 or 1, \<open>norm.ppf\<close> gives
  \<open>-inf\<close> or \<open>inf\<close> and the bias correction is set to 0.
\<close>

theorem bca_degenerate_inputs_handled:
  "(acc_denom (jack_diffs mean col) = 0 \<longrightarrow>
      fix_zero (acc_denom (jack_diffs mean col)) = 1 / 10 ^ 6 \<and>
      acceleration mean col = Finite (acc_numer (jack_diffs mean col) / (1 / 10 ^ 6))) \<and>
   (acc_denom (jack_diffs mean col) \<noteq> 0 \<longrightarrow>
      fix_zero (acc_denom (jack_diffs mean col)) = acc_denom (jack_diffs mean col)) \<and>
   fix_zero (acc_denom (jack_diffs mean col)) \<noteq> 0 \<and>
   acceleration mean col =
     Finite (acc_numer (jack_diffs mean col) / fix_zero (acc_denom (jack_diffs mean col))) \<and>
   (acc_denom (jack_diffs mean col) = 0 \<longleftrightarrow>
      nansum (map (map_option (\<lambda>d. d ^ 2)) (jack_diffs mean col)) = 0) \<and>
   (p_less n stat_val scol = 0 \<longrightarrow>
      norm_ppf ppf (p_less n stat_val scol) = MInf \<and> bias_correction ppf n stat_val scol = Finite 0) \<and>
   (p_less n stat_val scol = 1 \<longrightarrow>
      norm_ppf ppf (p_less n stat_val scol) = PInf \<and> bias_correction ppf n stat_val scol = Finite 0)"
proof (intro conjI impI)
  assume z: "acc_denom (jack_diffs mean col) = 0"
  then show "fix_zero (acc_denom (jack_diffs mean col)) = 1 / 10 ^ 6"
    by (simp add: fix_zero_def)
  then show "acceleration mean col = Finite (acc_numer (jack_diffs mean col) / (1 / 10 ^ 6))"
    by (simp only: acceleration_finite)
next
  assume "acc_denom (jack_diffs mean col) \<noteq> 0"
  then show "fix_zero (acc_denom (jack_diffs mean col)) = acc_denom (jack_diffs mean col)"
    by (simp add: fix_zero_def)
next
  show "fix_zero (acc_denom (jack_diffs mean col)) \<noteq> 0"
    by (rule fix_zero_nonzero)
  show "acceleration mean col =
     Finite (acc_numer (jack_diffs mean col) / fix_zero (acc_denom (jack_diffs mean col)))"
    by (rule acceleration_finite)
  show "acc_denom (jack_diffs mean col) = 0 \<longleftrightarrow>
      nansum (map (map_option (\<lambda>d. d ^ 2)) (jack_diffs mean col)) = 0"
    by (rule acc_denom_zero_iff)
next
  assume "p_less n stat_val scol = 0"
  then show "norm_ppf ppf (p_less n stat_val scol) = MInf" "bias_correction ppf n stat_val scol = Finite 0"
    using bias_correction_ends(1) [of n stat_val scol ppf] by simp_all
next
  assume "p_less n stat_val scol = 1"
  then show "norm_ppf ppf (p_less n stat_val scol) = PInf" "bias_correction ppf n stat_val scol = Finite 0"
    using bias_correction_ends(2) [of n stat_val scol ppf] by simp_all
qed

lemma demo_degenerate:
  "acc_denom (jack_diffs (Some 2) [Some 2, Some 2]) = 0"
  "acc_numer (jack_diffs (Some 2) [Some 2, Some 2]) = 0"
  "p_less 2 (Some 0) [Some 1, Some 3] = 0"
  "p_less 2 (Some 5) [Some 1, Some 3] = 1"
  by (simp_all add: acc_denom_def acc_numer_def jack_diffs_def nan_sub_def nansum_def nan_drop_def
      p_less_def)

theorem bca_degenerate_inputs_handled_witness:
  "acc_denom (jack_diffs (Some 2) [Some 2, Some 2]) = 0 \<and>
   acceleration (Some 2) [Some 2, Some 2] = Finite 0 \<and>
   p_less 2 (Some 0) [Some 1, Some 3] = 0 \<and>
   bias_correction (\<lambda>p. 2 * p - 1) 2 (Some 0) [Some 1, Some 3] = Finite 0 \<and>
   p_less 2 (Some 5) [Some 1, Some 3] = 1 \<and>
   bias_correction (\<lambda>p. 2 * p - 1) 2 (Some 5) [Some 1, Some 3] = Finite 0"
proof -
  note t = bca_degenerate_inputs_handled [where mean = "Some 2" and col = "[Some 2, Some 2]"
      and n = 2 and scol = "[Some 1, Some 3]" and ppf = "\<lambda>p. 2 * p - 1"]
  from t [where stat_val = "Some 0", THEN conjunct1, rule_format, OF demo_degenerate(1)]
  have a: "acceleration (Some 2) [Some 2, Some 2] = Finite 0"
    by (simp add: demo_degenerate(2))
  from t [where stat_val = "Some 0", THEN conjunct2, THEN conjunct2, THEN conjunct2, THEN conjunct2,
      THEN conjunct2, THEN conjunct1, rule_format, OF demo_degenerate(3)]
  have b: "bias_correction (\<lambda>p. 2 * p - 1) 2 (Some 0) [Some 1, Some 3] = Finite 0"
    by (rule conjunct2)
  from t [where stat_val = "Some 5", THEN conjunct2, THEN conjunct2, THEN conjunct2, THEN conjunct2,
      THEN conjunct2, THEN conjunct2, rule_format, OF demo_degenerate(4)]
  have c: "bias_correction (\<lambda>p. 2 * p - 1) 2 (Some 5) [Some 1, Some 3] = Finite 0"
    by (rule conjunct2)
  from demo_degenerate(1,3,4) a b c show ?thesis
    by (simp only: simp_thms)
qed










text \<open>
  The stage of method \<open>bca\<close> is likewise what \<open>boot_cis\<close> returns once the name
  \<open>tools\<close> is bound, the seeds are drawn, the resampling has given a score matrix and
  the jackknife its scores and means.
\<close>

lemma boot_cis_bca_stage:
  assumes ds: "derive_seeds e seed n g = Inr (seeds, g1)"
    and "snd (resample (Some tm) targets guesses sample_by average_by weighted seeds) = Inr scores"
    and "jackknife_metrics (Some tm)
           (length (clf_metrics tm targets guesses (PointCall average_by weighted mcnemar)))
           targets guesses = Inr j"
    and "method_bca (ppf_of e) (cdf_of e) interp n a
           (clf_metrics tm targets guesses (PointCall average_by weighted mcnemar)) scores j = Inr (q, b)"
  shows "snd (boot_cis e (Some tm) targets guesses sample_by n a ''bca'' interp average_by weighted
                mcnemar seed g) =
     Inr \<lparr>cis_tab = with_stat (clf_metrics tm targets guesses (PointCall average_by weighted mcnemar)) b,
          scores_out = scores, ranks = Some q\<rparr>"
proof -
  obtain ev boot where r: "resample (Some tm) targets guesses sample_by average_by weighted seeds = (ev, boot)"
    by (cases "resample (Some tm) targets guesses sample_by average_by weighted seeds")
  with assms(2) have b: "boot = Inr scores" by simp
  show ?thesis
    using assms(3,4) by (simp add: boot_cis_def Let_def ds r b methods_def split_def)
qed

subsection \<open>The module as it stands\<close>

lemma boot_cis_module:
  "boot_cis e module_tools targets guesses sample_by n a method interp average_by weighted mcnemar seed g =
     ([], Inl NameError)"
  by (simp add: module_tools_def boot_cis_unbound)

lemma boot_roc_module:
  "boot_roc e module_tools roc_curve targets scores sample_by n seed =
     (if 0 \<le> seed \<and> seed < 2 ^ 32 then Inl NameError else Inl ValueError)"
  by (simp only: module_tools_def boot_roc_unbound)

lemma np_take_in_range: "\<forall>i \<in> set idx. i < length xs \<Longrightarrow> np_take xs idx = Inr (map (\<lambda>i. xs ! i) idx)"
  by (simp add: np_take_def list_all_iff)

lemma jackknife_metrics_unbound:
  assumes "length targets \<le> length guesses"
  shows "jackknife_metrics None m targets guesses = Inl NameError"
proof -
  let ?rows = "[0..<length targets]"
  have t: "np_take targets (filter (\<lambda>i. i \<noteq> row) ?rows) =
      Inr (map (\<lambda>i. targets ! i) (filter (\<lambda>i. i \<noteq> row) ?rows))" for row
    by (rule np_take_in_range) simp
  have g: "np_take guesses (filter (\<lambda>i. i \<noteq> row) ?rows) =
      Inr (map (\<lambda>i. guesses ! i) (filter (\<lambda>i. i \<noteq> row) ?rows))" for row
    using assms by (intro np_take_in_range) auto
  show ?thesis
    unfolding jackknife_metrics_def Let_def
    by (simp add: t g o_def collect_map_Inr)
qed

end
